theory Spec2Isabelle
  imports Complex_Main "HOL-Library.AList" "HOL-Library.Sublist"
begin

section \<open>Python values, strings and dictionaries\<close>

text \<open>
  The two stores of the movie catalogue (\<^verbatim>\<open>storage_csv.py\<close>, \<^verbatim>\<open>storage_json.py\<close>) carry
  the year, rating and poster of a movie without ever computing with them. A value is
  one of the scalars the application passes or a file yields. A float is carried as the
  number it denotes (the stores do no arithmetic); equality of values is structural,
  which is Python's \<^verbatim>\<open>==\<close> on strings and on \<^verbatim>\<open>None\<close>.

  One limit of Python's library is outside the operations below: \<^verbatim>\<open>str\<close> and \<^verbatim>\<open>json.dump\<close>
  refuse, with \<^verbatim>\<open>ValueError\<close>, to print an integer of more than 4300 digits
  (\<^verbatim>\<open>sys.get_int_max_str_digits\<close>). The operations print every integer; \<open>printable\<close>
  marks the values within the limit, for the statements that depend on a write.
\<close>

datatype pyval = PNone | PBool bool | PInt int | PFloat rat | PStr string

datatype py_error = KeyError | ValueError | CsvError

text \<open>
  A Python \<^verbatim>\<open>dict\<close> with string keys is an association list in insertion order:
  \<^verbatim>\<open>d[k] = v\<close> is \<^const>\<open>AList.update\<close> (an existing key keeps its place, a new one goes
  last), \<^verbatim>\<open>del d[k]\<close> is \<^const>\<open>AList.delete\<close>, \<^verbatim>\<open>k in d\<close> is membership in the keys.
\<close>

type_synonym 'v dict = "(string \<times> 'v) list"

definition keys :: "('k \<times> 'v) list \<Rightarrow> 'k list" where
  "keys d = map fst d"

definition dict_of_pairs :: "('k \<times> 'v) list \<Rightarrow> ('k \<times> 'v) list" where
  \<comment> \<open>\<^verbatim>\<open>dict(pairs)\<close>: a later pair with the same key overwrites the value\<close>
  "dict_of_pairs ps = foldl (\<lambda>d (k, v). AList.update k v d) [] ps"

text \<open>
  \<^verbatim>\<open>str.lower()\<close>, on characters that are code points below 256: the capital letters of
  ASCII and of Latin-1 (all of \<^verbatim>\<open>0xC0..0xDE\<close> but the multiplication sign) move up by 32.
\<close>

definition lower_char :: "char \<Rightarrow> char" where
  "lower_char c =
     (let n = (of_char c :: nat)
      in if (65 \<le> n \<and> n \<le> 90) \<or> (192 \<le> n \<and> n \<le> 222 \<and> n \<noteq> 215)
         then char_of (n + 32) else c)"

definition lower :: "string \<Rightarrow> string" where
  "lower s = map lower_char s"

text \<open>\<^verbatim>\<open>x in s\<close> on two strings: \<open>x\<close> occurs in \<open>s\<close> as a contiguous block.\<close>

primrec str_contains :: "string \<Rightarrow> string \<Rightarrow> bool" where
  "str_contains [] x = (x = [])"
| "str_contains (c # cs) x = (prefix x (c # cs) \<or> str_contains cs x)"

section \<open>The structured-document store (\<^verbatim>\<open>storage_json.py\<close>)\<close>

text \<open>
  The document maps a title to the attributes of the movie. \<^verbatim>\<open>json.dump\<close> and
  \<^verbatim>\<open>json.load\<close> belong to Python's library; the file is held as the members of the
  top-level object in the order they are written. Loading builds dictionaries, so a
  repeated member name keeps its first place and its last value. The top-level value
  is an object and the value of each title is an object, as the module's note on the
  file says; the values of the attributes are scalars, and no operation looks inside
  them.
\<close>

type_synonym document = "pyval dict dict"

record json_store =
  jdata :: document
  jdisk :: document

definition json_load :: "document \<Rightarrow> document" where
  "json_load f = dict_of_pairs (map (\<lambda>(k, v). (k, dict_of_pairs v)) f)"

definition json_dump :: "document \<Rightarrow> document" where
  "json_dump d = d"

definition json_init :: "document \<Rightarrow> json_store" where
  "json_init f = \<lparr>jdata = json_load f, jdisk = f\<rparr>"

definition json_list_movies :: "json_store \<Rightarrow> document" where
  "json_list_movies st = jdata st"

definition json_add_movie ::
  "string \<Rightarrow> pyval \<Rightarrow> pyval \<Rightarrow> pyval \<Rightarrow> json_store \<Rightarrow> string \<times> json_store" where
  "json_add_movie title year rating poster st =
     (if title \<in> set (keys (jdata st)) then (''Movie already exists'', st)
      else
        let d = AList.update title
                  [(''year'', year), (''rating'', rating), (''image-url'', poster)] (jdata st)
        in (title @ '' has been added to the database'', \<lparr>jdata = d, jdisk = json_dump d\<rparr>))"

definition json_delete_movie :: "string \<Rightarrow> json_store \<Rightarrow> string \<times> json_store" where
  "json_delete_movie title st =
     (case find (\<lambda>movie_title. lower title = lower movie_title) (keys (jdata st)) of
        Some movie_title \<Rightarrow>
          let d = AList.delete movie_title (jdata st)
          in (title @ '' has been deleted from the database'', \<lparr>jdata = d, jdisk = json_dump d\<rparr>)
      | None \<Rightarrow> (title @ '' does not exist in the database'', st))"

definition json_update_movie :: "string \<Rightarrow> string \<Rightarrow> json_store \<Rightarrow> string \<times> json_store" where
  "json_update_movie title notes st =
     (case find (\<lambda>(movie_title, values).
                   lower title = lower movie_title \<and> ''image-url'' \<in> set (keys values))
                (jdata st) of
        Some (movie_title, values) \<Rightarrow>
          let d = AList.map_entry movie_title (AList.update ''note'' (PStr notes)) (jdata st)
          in (''Note added to the movie '' @ [CHR 0x27] @ movie_title @ [CHR 0x27]
                @ '' successfully. Now try to hover over the movie'',
              \<lparr>jdata = d, jdisk = json_dump d\<rparr>)
      | None \<Rightarrow>
          (''Movie does not exist or does not have an '' @ [CHR 0x27] @ ''image-url''
             @ [CHR 0x27] @ '' field.'', st))"

section \<open>The delimited-text store (\<^verbatim>\<open>storage_csv.py\<close>)\<close>

subsection \<open>Rows and the file\<close>

text \<open>
  The working set \<^verbatim>\<open>self.data\<close> is a list of dictionaries, one per row. The keys of a
  row are column names; a row read from a line with more fields than the header has
  one more entry, the list of the surplus fields under the key \<^verbatim>\<open>None\<close> (the reader's
  \<^verbatim>\<open>restkey\<close>). A row is therefore its string-keyed entries and the optional surplus.

  Quoting and line ends belong to Python's \<^verbatim>\<open>csv\<close> module; the file is held as the list
  of its lines, each the list of its fields, the header line first. A blank line is the
  empty list of fields.
\<close>

datatype csv_row = Row (entries: "pyval dict") (restkey: "string list option")

type_synonym csv_file = "string list list"

record csv_store =
  data :: "csv_row list"
  disk :: csv_file

definition header :: "string list" where
  "header = [''title'', ''year'', ''rating'', ''poster'', ''notes'']"

text \<open>
  \<^verbatim>\<open>csv.DictReader\<close>: the first line gives the field names; every later line that is
  not blank becomes \<^verbatim>\<open>dict(zip(fieldnames, row))\<close>, a longer line keeps its surplus under
  \<^verbatim>\<open>None\<close>, a shorter one gets \<^verbatim>\<open>None\<close> as the value of each missing field.
\<close>

definition read_row :: "string list \<Rightarrow> string list \<Rightarrow> csv_row" where
  "read_row fieldnames row =
     (let d = dict_of_pairs (zip fieldnames (map PStr row));
          lf = length fieldnames;
          lr = length row
      in if lf < lr then Row d (Some (drop lf row))
         else if lf > lr then Row (foldl (\<lambda>d key. AList.update key PNone d) d (drop lr fieldnames)) None
         else Row d None)"

definition DictReader :: "csv_file \<Rightarrow> csv_row list" where
  "DictReader f =
     (case f of
        [] \<Rightarrow> []
      | fieldnames # rows \<Rightarrow> map (read_row fieldnames) (filter (\<lambda>row. row \<noteq> []) rows))"

text \<open>
  The reader of the \<^verbatim>\<open>csv\<close> module raises its \<^verbatim>\<open>Error\<close> on a field of more than
  \<^verbatim>\<open>csv.field_size_limit()\<close> characters, 131072 unless changed. \<^verbatim>\<open>__init__\<close> reads every
  line, so one such field anywhere in the file makes the construction raise.
\<close>

definition field_size_limit :: nat where
  "field_size_limit = 131072"

definition csv_init :: "csv_file \<Rightarrow> py_error + csv_store" where
  "csv_init f =
     (if \<exists>line \<in> set f. \<exists>field \<in> set line. field_size_limit < length field
      then Inl CsvError
      else Inr \<lparr>data = DictReader f, disk = f\<rparr>)"

text \<open>
  \<^verbatim>\<open>csv.DictWriter(fileobj, fieldnames=self.header)\<close>: a row with a key outside the field
  names raises \<^verbatim>\<open>ValueError\<close> (\<^verbatim>\<open>extrasaction='raise'\<close>); a missing key is written as the
  empty field; \<^verbatim>\<open>None\<close> is written as the empty field, a string as it is, any other value
  as \<^verbatim>\<open>str(value)\<close>. The text of a float is Python's \<^verbatim>\<open>repr\<close>, which is taken as the
  parameter \<open>repr\<close>.
\<close>

function str_nat :: "nat \<Rightarrow> string" where
  "str_nat n =
     (if n < 10 then [char_of (48 + n)] else str_nat (n div 10) @ [char_of (48 + n mod 10)])"
  by pat_completeness auto
termination
  by (relation "measure id") auto

declare str_nat.simps [simp del]

definition py_str :: "(rat \<Rightarrow> string) \<Rightarrow> pyval \<Rightarrow> string" where
  "py_str repr v =
     (case v of
        PNone \<Rightarrow> ''None''
      | PBool b \<Rightarrow> (if b then ''True'' else ''False'')
      | PInt i \<Rightarrow> (if i < 0 then ''-'' @ str_nat (nat (- i)) else str_nat (nat i))
      | PFloat q \<Rightarrow> repr q
      | PStr s \<Rightarrow> s)"

definition csv_field :: "(rat \<Rightarrow> string) \<Rightarrow> pyval \<Rightarrow> string" where
  "csv_field repr v = (case v of PNone \<Rightarrow> [] | PStr s \<Rightarrow> s | _ \<Rightarrow> py_str repr v)"

definition int_max_str_digits :: nat where
  "int_max_str_digits = 4300"

fun printable :: "pyval \<Rightarrow> bool" where
  "printable (PInt i) = (length (str_nat (nat \<bar>i\<bar>)) \<le> int_max_str_digits)"
| "printable v = True"

definition dict_to_list :: "(rat \<Rightarrow> string) \<Rightarrow> csv_row \<Rightarrow> py_error + string list" where
  "dict_to_list repr rowdict =
     (if restkey rowdict \<noteq> None \<or> (\<exists>k \<in> set (keys (entries rowdict)). k \<notin> set header)
      then Inl ValueError
      else Inr (map (\<lambda>key. case map_of (entries rowdict) key of
                              None \<Rightarrow> []
                            | Some v \<Rightarrow> csv_field repr v) header))"

text \<open>
  \<^verbatim>\<open>open(path, "w")\<close> empties the file, \<^verbatim>\<open>writeheader\<close> writes the header line and
  \<^verbatim>\<open>writerows\<close> the rows one after the other; a row that raises leaves the lines written
  so far.
\<close>

fun writerows :: "(rat \<Rightarrow> string) \<Rightarrow> csv_row list \<Rightarrow> csv_file \<Rightarrow> csv_file \<times> py_error option" where
  "writerows repr [] f = (f, None)"
| "writerows repr (rowdict # rowdicts) f =
     (case dict_to_list repr rowdict of
        Inl e \<Rightarrow> (f, Some e)
      | Inr line \<Rightarrow> writerows repr rowdicts (f @ [line]))"

definition write_file :: "(rat \<Rightarrow> string) \<Rightarrow> csv_row list \<Rightarrow> csv_file \<times> py_error option" where
  "write_file repr rows = writerows repr rows [header]"

definition persist ::
  "(rat \<Rightarrow> string) \<Rightarrow> string \<Rightarrow> csv_store \<Rightarrow> (py_error + string) \<times> csv_store" where
  \<comment> \<open>the \<^verbatim>\<open>with open(...)\<close> block of a method, followed by its \<^verbatim>\<open>return\<close>\<close>
  "persist repr message st =
     (case write_file repr (data st) of
        (f, Some e) \<Rightarrow> (Inl e, st\<lparr>disk := f\<rparr>)
      | (f, None) \<Rightarrow> (Inr message, st\<lparr>disk := f\<rparr>))"

subsection \<open>The four operations\<close>

text \<open>
  \<^verbatim>\<open>list_movies\<close> returns a dictionary keyed by the title value of each row, or the
  string \<^verbatim>\<open>"Empty Database..."\<close> when that dictionary is empty. Reading a key a row
  does not have raises \<^verbatim>\<open>KeyError\<close>.
\<close>

datatype listing = Sentinel string | Movies "(pyval \<times> pyval dict) list"

fun list_loop ::
  "csv_row list \<Rightarrow> (pyval \<times> pyval dict) list \<Rightarrow> py_error + (pyval \<times> pyval dict) list" where
  "list_loop [] dictionary = Inr dictionary"
| "list_loop (key # rest) dictionary =
     (case (map_of (entries key) ''year'', map_of (entries key) ''rating'',
            map_of (entries key) ''poster'', map_of (entries key) ''title'') of
        (Some year, Some rating, Some poster, Some title) \<Rightarrow>
          list_loop rest
            (AList.update title
               [(''year'', year), (''rating'', rating), (''poster'', poster)] dictionary)
      | _ \<Rightarrow> Inl KeyError)"

definition csv_list_movies :: "csv_store \<Rightarrow> py_error + listing" where
  "csv_list_movies st =
     (case list_loop (data st) [] of
        Inl e \<Rightarrow> Inl e
      | Inr dictionary \<Rightarrow>
          if dictionary = [] then Inr (Sentinel ''Empty Database...'')
          else Inr (Movies dictionary))"

definition contains :: "listing \<Rightarrow> string \<Rightarrow> bool" where
  \<comment> \<open>\<^verbatim>\<open>title in movie_data\<close>: a substring test on a string, a key test on a dictionary\<close>
  "contains movie_data title =
     (case movie_data of
        Sentinel s \<Rightarrow> str_contains s title
      | Movies dictionary \<Rightarrow> PStr title \<in> set (keys dictionary))"

definition csv_add_movie ::
  "(rat \<Rightarrow> string) \<Rightarrow> string \<Rightarrow> pyval \<Rightarrow> pyval \<Rightarrow> pyval \<Rightarrow> csv_store
     \<Rightarrow> (py_error + string) \<times> csv_store" where
  "csv_add_movie repr title year rating poster st =
     (case csv_list_movies st of
        Inl e \<Rightarrow> (Inl e, st)
      | Inr movie_data \<Rightarrow>
          if contains movie_data title then (Inr ''Movie already exists'', st)
          else
            let movie = Row [(''title'', PStr title), (''year'', year),
                             (''rating'', rating), (''poster'', poster)] None
            in persist repr (title @ '' added to the database'')
                 (st\<lparr>data := data st @ [movie]\<rparr>))"

text \<open>
  \<^verbatim>\<open>delete_movie\<close>: the loop stops at the first row whose title equals the argument;
  \<^verbatim>\<open>self.data.remove(movie)\<close> removes the first row equal to it.
\<close>

fun delete_scan :: "string \<Rightarrow> csv_row list \<Rightarrow> py_error + csv_row option" where
  "delete_scan title [] = Inr None"
| "delete_scan title (movie # rest) =
     (case map_of (entries movie) ''title'' of
        None \<Rightarrow> Inl KeyError
      | Some t \<Rightarrow> if PStr title = t then Inr (Some movie) else delete_scan title rest)"

definition csv_delete_movie ::
  "(rat \<Rightarrow> string) \<Rightarrow> string \<Rightarrow> csv_store \<Rightarrow> (py_error + string) \<times> csv_store" where
  "csv_delete_movie repr title st =
     (case delete_scan title (data st) of
        Inl e \<Rightarrow> (Inl e, st)
      | Inr (Some movie) \<Rightarrow>
          persist repr (title @ '' has been deleted from the database'')
            (st\<lparr>data := remove1 movie (data st)\<rparr>)
      | Inr None \<Rightarrow> (Inr (title @ '' does not exist in the database''), st))"

text \<open>
  \<^verbatim>\<open>update_movie\<close>: the loop sets \<^verbatim>\<open>notes\<close> on every row with the title (a row without
  a title raises after the rows before it were changed), the file is written whatever
  the loop did, and a second scan chooses the message.
\<close>

fun update_loop :: "string \<Rightarrow> string \<Rightarrow> csv_row list \<Rightarrow> csv_row list \<times> py_error option" where
  "update_loop title notes [] = ([], None)"
| "update_loop title notes (movie # rest) =
     (case map_of (entries movie) ''title'' of
        None \<Rightarrow> (movie # rest, Some KeyError)
      | Some t \<Rightarrow>
          let movie' = (if PStr title = t
                        then Row (AList.update ''notes'' (PStr notes) (entries movie)) (restkey movie)
                        else movie);
              (rest', e) = update_loop title notes rest
          in (movie' # rest', e))"

definition csv_update_movie ::
  "(rat \<Rightarrow> string) \<Rightarrow> string \<Rightarrow> string \<Rightarrow> csv_store \<Rightarrow> (py_error + string) \<times> csv_store" where
  "csv_update_movie repr title notes st =
     (case update_loop title notes (data st) of
        (rows, Some e) \<Rightarrow> (Inl e, st\<lparr>data := rows\<rparr>)
      | (rows, None) \<Rightarrow>
          persist repr
            (if \<exists>movie \<in> set rows. map_of (entries movie) ''title'' = Some (PStr title)
             then title @ '' has been updated'' else title @ '' does not exist'')
            (st\<lparr>data := rows\<rparr>))"

section \<open>Well-formed states\<close>

text \<open>
  The keys of a Python dictionary are pairwise different. For the association lists that
  stand for the document and for the attributes of a movie this is a property of the
  state: \<^verbatim>\<open>json.load\<close> establishes it and the operations keep it.
\<close>

definition wf_document :: "document \<Rightarrow> bool" where
  "wf_document d \<longleftrightarrow> distinct (keys d) \<and> (\<forall>v \<in> set (map snd d). distinct (keys v))"


text \<open>
  For the rows of the delimited-text store three properties matter. A row is
  \<^emph>\<open>complete\<close> when it has the four keys \<^verbatim>\<open>list_movies\<close> reads, so that reading them does
  not raise; it is \<^emph>\<open>writable\<close> when it has no surplus entry and no key outside the
  header, so that the writer does not raise. \<open>project\<close> is the entry \<^verbatim>\<open>list_movies\<close>
  makes of a row, and \<open>line_of\<close> the line the writer makes of it.
\<close>

definition complete_row :: "csv_row \<Rightarrow> bool" where
  "complete_row r \<longleftrightarrow>
     (\<forall>k \<in> set [''title'', ''year'', ''rating'', ''poster'']. k \<in> set (keys (entries r)))"

definition writable_row :: "csv_row \<Rightarrow> bool" where
  "writable_row r \<longleftrightarrow> restkey r = None \<and> (\<forall>k \<in> set (keys (entries r)). k \<in> set header)"

definition has_title :: "string \<Rightarrow> csv_row \<Rightarrow> bool" where
  "has_title t r \<longleftrightarrow> map_of (entries r) ''title'' = Some (PStr t)"

definition project :: "csv_row \<Rightarrow> (pyval \<times> pyval dict) option" where
  "project r =
     (case (map_of (entries r) ''year'', map_of (entries r) ''rating'',
            map_of (entries r) ''poster'', map_of (entries r) ''title'') of
        (Some year, Some rating, Some poster, Some title) \<Rightarrow>
          Some (title, [(''year'', year), (''rating'', rating), (''poster'', poster)])
      | _ \<Rightarrow> None)"

definition line_of :: "(rat \<Rightarrow> string) \<Rightarrow> csv_row \<Rightarrow> string list" where
  "line_of repr r =
     map (\<lambda>key. case map_of (entries r) key of None \<Rightarrow> [] | Some v \<Rightarrow> csv_field repr v) header"

text \<open>The entries of a listing; the sentinel string stands for no entry.\<close>

definition records :: "listing \<Rightarrow> (pyval \<times> pyval dict) list" where
  "records l = (case l of Sentinel s \<Rightarrow> [] | Movies d \<Rightarrow> d)"

section \<open>Calls and sessions\<close>

text \<open>
  A caller such as \<^verbatim>\<open>MovieApp\<close> constructs a store from its file and then calls the
  mutating methods one after the other.
\<close>

datatype json_op = JAdd string pyval pyval pyval | JDelete string | JUpdate string string

fun json_call :: "json_op \<Rightarrow> json_store \<Rightarrow> string \<times> json_store" where
  "json_call (JAdd title year rating poster) st = json_add_movie title year rating poster st"
| "json_call (JDelete title) st = json_delete_movie title st"
| "json_call (JUpdate title notes) st = json_update_movie title notes st"

fun json_session :: "json_op list \<Rightarrow> json_store \<Rightarrow> json_store" where
  "json_session [] st = st"
| "json_session (c # cs) st = json_session cs (snd (json_call c st))"

datatype csv_op = CAdd string pyval pyval pyval | CDelete string | CUpdate string string

fun csv_call ::
  "(rat \<Rightarrow> string) \<Rightarrow> csv_op \<Rightarrow> csv_store \<Rightarrow> (py_error + string) \<times> csv_store" where
  "csv_call repr (CAdd title year rating poster) st = csv_add_movie repr title year rating poster st"
| "csv_call repr (CDelete title) st = csv_delete_movie repr title st"
| "csv_call repr (CUpdate title notes) st = csv_update_movie repr title notes st"

text \<open>
  The file of a store is \<^emph>\<open>just written\<close> when writing the working set succeeds and
  gives exactly the file: the state every mutating call that returns leaves behind, if
  it wrote at all.
\<close>

definition just_written :: "(rat \<Rightarrow> string) \<Rightarrow> csv_store \<Rightarrow> bool" where
  "just_written repr st \<longleftrightarrow> write_file repr (data st) = (disk st, None)"


text \<open>
  A row is \<^emph>\<open>textual\<close> when it is writable and its title, year, rating and poster are
  strings, as in every row read from a file of full lines. \<open>as_text\<close> replaces every
  value of a row by the text the writer writes for it. A row or a document is
  printable when its values are.
\<close>

fun is_text :: "pyval \<Rightarrow> bool" where
  "is_text (PStr s) = True"
| "is_text v = False"

definition text_row :: "csv_row \<Rightarrow> bool" where
  "text_row r \<longleftrightarrow>
     writable_row r
     \<and> (\<forall>k \<in> set [''title'', ''year'', ''rating'', ''poster''].
           case map_of (entries r) k of Some v \<Rightarrow> is_text v | None \<Rightarrow> False)"


definition printable_row :: "csv_row \<Rightarrow> bool" where
  "printable_row r \<longleftrightarrow> (\<forall>v \<in> set (map snd (entries r)). printable v)"


definition within_field_limit :: "csv_file \<Rightarrow> bool" where
  "within_field_limit f \<longleftrightarrow> (\<forall>line \<in> set f. \<forall>field \<in> set line. length field \<le> field_size_limit)"


section \<open>Facts about strings and dictionaries\<close>

lemma str_contains_sublist: "str_contains s x \<longleftrightarrow> sublist x s"
  by (induction s) (auto simp: sublist_Cons_right)

lemma keys_simps [simp]:
  "keys [] = []" "keys ((k, v) # d) = k # keys d" "keys (d @ e) = keys d @ keys e"
  by (simp_all add: keys_def)

lemma set_keys: "set (keys d) = fst ` set d"
  by (simp add: keys_def)

lemma keys_update:
  "keys (AList.update k v d) = (if k \<in> set (keys d) then keys d else keys d @ [k])"
  by (simp add: keys_def update_keys)

lemma update_absent: "k \<notin> set (keys d) \<Longrightarrow> AList.update k v d = d @ [(k, v)]"
  by (induction d) (auto simp: keys_def)

lemma foldl_update_distinct:
  "distinct (keys acc) \<Longrightarrow> distinct (keys (foldl (\<lambda>d (k, v). AList.update k v d) acc ps))"
  by (induction ps arbitrary: acc) (auto simp: keys_def distinct_update split: prod.splits)

lemma distinct_dict_of_pairs: "distinct (keys (dict_of_pairs ps))"
  by (simp add: dict_of_pairs_def foldl_update_distinct)

lemma foldl_update_append:
  "distinct (keys (acc @ ps)) \<Longrightarrow> foldl (\<lambda>d (k, v). AList.update k v d) acc ps = acc @ ps"
proof (induction ps arbitrary: acc)
  case Nil
  then show ?case by simp
next
  case (Cons p ps)
  obtain k v where p: "p = (k, v)" by (cases p)
  from Cons.prems p have "k \<notin> set (keys acc)" by auto
  then have "AList.update k v acc = acc @ [(k, v)]" by (rule update_absent)
  moreover from Cons.prems p have "distinct (keys ((acc @ [(k, v)]) @ ps))" by simp
  ultimately show ?case using Cons.IH [of "acc @ [(k, v)]"] p by simp
qed

lemma dict_of_pairs_id: "distinct (keys d) \<Longrightarrow> dict_of_pairs d = d"
  using foldl_update_append [of "[]" d] by (simp add: dict_of_pairs_def)

lemma values_foldl_update:
  "set (map snd (foldl (\<lambda>d (k, v). AList.update k v d) acc ps)) \<subseteq> set (map snd acc) \<union> set (map snd ps)"
proof (induction ps arbitrary: acc)
  case Nil
  then show ?case by simp
next
  case (Cons p ps)
  obtain k v where p: "p = (k, v)" by (cases p)
  have "set (map snd (AList.update k v acc)) \<subseteq> insert v (set (map snd acc))"
    by (induction acc) auto
  with Cons.IH [of "AList.update k v acc"] p show ?case by auto
qed

lemma wf_json_load: "wf_document (json_load f)"
proof -
  have "set (map snd (json_load f)) \<subseteq> set (map snd (map (\<lambda>(k, v). (k, dict_of_pairs v)) f))"
    unfolding json_load_def dict_of_pairs_def [of "map _ f"]
    using values_foldl_update [of "[]" "map (\<lambda>(k, v). (k, dict_of_pairs v)) f"] by simp
  then have "\<forall>v \<in> set (map snd (json_load f)). distinct (keys v)"
    by (auto simp: distinct_dict_of_pairs)
  then show ?thesis
    by (simp add: wf_document_def json_load_def distinct_dict_of_pairs)
qed

lemma json_load_dump: "wf_document d \<Longrightarrow> json_load (json_dump d) = d"
proof -
  assume wf: "wf_document d"
  then have "map (\<lambda>(k, v). (k, dict_of_pairs v)) d = d"
    by (intro map_idI) (auto simp: wf_document_def dict_of_pairs_id)
  with wf show ?thesis
    by (simp add: json_load_def json_dump_def wf_document_def dict_of_pairs_id)
qed

lemma lower_examples:
  "lower ''UP'' = ''up''" "lower ''Up'' = ''up''" "lower ''up'' = ''up''"
  "lower ''Down'' = ''down''" "lower ''Inception'' = ''inception''"
  "lower ''inception'' = ''inception''"
  by code_simp+

lemma map_of_keys: "map_of d k = None \<longleftrightarrow> k \<notin> set (keys d)"
  by (simp add: map_of_eq_None_iff keys_def)

lemma map_of_keys_Some: "k \<in> set (keys d) \<longleftrightarrow> (\<exists>v. map_of d k = Some v)"
  using map_of_keys [of d k] by auto


lemma find_first:
  "\<forall>x \<in> set xs. \<not> P x \<Longrightarrow> P y \<Longrightarrow> find P (xs @ y # ys) = Some y"
  by (induction xs) auto

lemma find_decomp:
  "find P zs = Some y \<Longrightarrow> \<exists>xs ys. zs = xs @ y # ys \<and> (\<forall>x \<in> set xs. \<not> P x) \<and> P y"
proof (induction zs)
  case Nil
  then show ?case by simp
next
  case (Cons z zs)
  show ?case
  proof (cases "P z")
    case True
    with Cons.prems have "z = y" by simp
    with True have "z # zs = [] @ y # zs \<and> (\<forall>x \<in> set []. \<not> P x) \<and> P y" by simp
    then show ?thesis by blast
  next
    case False
    with Cons obtain xs ys where "zs = xs @ y # ys" "\<forall>x \<in> set xs. \<not> P x" "P y" by auto
    with False have "z # zs = (z # xs) @ y # ys \<and> (\<forall>x \<in> set (z # xs). \<not> P x) \<and> P y" by simp
    then show ?thesis by blast
  qed
qed

lemma delete_absent: "k \<notin> set (keys d) \<Longrightarrow> AList.delete k d = d"
  by (induction d) (auto simp: keys_def)

lemma delete_append: "AList.delete k (xs @ ys) = AList.delete k xs @ AList.delete k ys"
  by (simp add: AList.delete_eq)

lemma delete_middle:
  "distinct (keys (xs @ (k, v) # ys)) \<Longrightarrow> AList.delete k (xs @ (k, v) # ys) = xs @ ys"
  by (simp add: delete_append delete_absent)

lemma map_entry_middle:
  "k \<notin> set (keys xs) \<Longrightarrow> AList.map_entry k f (xs @ (k, v) # ys) = xs @ (k, f v) # ys"
  by (induction xs) (auto simp: keys_def)

lemma first_key_decomp:
  "\<exists>k \<in> set (keys d). P k \<Longrightarrow>
   \<exists>xs k v ys. d = xs @ (k, v) # ys \<and> (\<forall>k' \<in> set (keys xs). \<not> P k') \<and> P k"
proof (induction d)
  case Nil
  then show ?case by simp
next
  case (Cons p d)
  obtain k v where p: "p = (k, v)" by (cases p)
  show ?case
  proof (cases "P k")
    case True
    then have "p # d = [] @ (k, v) # d \<and> (\<forall>k' \<in> set (keys []). \<not> P k') \<and> P k"
      using p by simp
    then show ?thesis by blast
  next
    case False
    with Cons.prems p have "\<exists>k \<in> set (keys d). P k" by simp
    then obtain xs k' v' ys where
      "d = xs @ (k', v') # ys" "\<forall>k'' \<in> set (keys xs). \<not> P k''" "P k'"
      using Cons.IH by blast
    with False p have "p # d = ((k, v) # xs) @ (k', v') # ys
        \<and> (\<forall>k'' \<in> set (keys ((k, v) # xs)). \<not> P k'') \<and> P k'"
      by simp
    then show ?thesis by blast
  qed
qed

lemma key_decomp:
  "k \<in> set (keys d) \<Longrightarrow> \<exists>xs v ys. d = xs @ (k, v) # ys \<and> k \<notin> set (keys xs)"
  using first_key_decomp [of d "\<lambda>k'. k' = k"] by auto

lemma delete_present:
  assumes "distinct (keys d)" and "k \<in> set (keys d)"
  shows "length (AList.delete k d) + 1 = length d"
    and "map_of (AList.delete k d) = (map_of d)(k := None)"
proof -
  from key_decomp [OF assms(2)] obtain xs v ys where d: "d = xs @ (k, v) # ys" by blast
  with assms(1) have "AList.delete k d = xs @ ys" by (simp add: delete_middle)
  then show "length (AList.delete k d) + 1 = length d" using d by simp
  show "map_of (AList.delete k d) = (map_of d)(k := None)" by (rule delete_conv')
qed


section \<open>The structured-document store: properties\<close>

lemma json_delete_absent:
  "\<forall>k \<in> set (keys (jdata st)). lower t \<noteq> lower k \<Longrightarrow>
   json_delete_movie t st = (t @ '' does not exist in the database'', st)"
proof -
  assume "\<forall>k \<in> set (keys (jdata st)). lower t \<noteq> lower k"
  then have "find (\<lambda>k. lower t = lower k) (keys (jdata st)) = None"
    by (simp add: find_None_iff)
  then show ?thesis by (simp add: json_delete_movie_def)
qed

lemma json_delete_first:
  assumes "jdata st = xs @ (k, v) # ys"
    and "\<forall>k' \<in> set (keys xs). lower t \<noteq> lower k'"
    and "lower t = lower k"
    and "distinct (keys (jdata st))"
  shows "json_delete_movie t st =
           (t @ '' has been deleted from the database'',
            \<lparr>jdata = xs @ ys, jdisk = json_dump (xs @ ys)\<rparr>)"
proof -
  have "find (\<lambda>k. lower t = lower k) (keys (jdata st)) = Some k"
    using assms(1-3) by (simp add: find_first)
  moreover have "AList.delete k (jdata st) = xs @ ys"
    using assms(1,4) by (simp add: delete_middle)
  ultimately show ?thesis by (simp add: json_delete_movie_def Let_def)
qed

lemma json_update_none:
  assumes "\<forall>(k, v) \<in> set (jdata st). \<not> (lower t = lower k \<and> ''image-url'' \<in> set (keys v))"
  shows "json_update_movie t n st =
           (''Movie does not exist or does not have an '' @ [CHR 0x27] @ ''image-url''
              @ [CHR 0x27] @ '' field.'', st)"
proof -
  have "find (\<lambda>(k, v). lower t = lower k \<and> ''image-url'' \<in> set (keys v)) (jdata st) = None"
    using assms by (auto simp: find_None_iff)
  then show ?thesis by (simp add: json_update_movie_def)
qed

lemma json_update_first:
  assumes "jdata st = xs @ (k, v) # ys"
    and "\<forall>(k', v') \<in> set xs. \<not> (lower t = lower k' \<and> ''image-url'' \<in> set (keys v'))"
    and "lower t = lower k" and "''image-url'' \<in> set (keys v)"
    and "distinct (keys (jdata st))"
  shows "json_update_movie t n st =
           (''Note added to the movie '' @ [CHR 0x27] @ k @ [CHR 0x27]
              @ '' successfully. Now try to hover over the movie'',
            \<lparr>jdata = xs @ (k, AList.update ''note'' (PStr n) v) # ys,
             jdisk = json_dump (xs @ (k, AList.update ''note'' (PStr n) v) # ys)\<rparr>)"
proof -
  have "find (\<lambda>(k, v). lower t = lower k \<and> ''image-url'' \<in> set (keys v)) (jdata st) = Some (k, v)"
    unfolding assms(1) using assms(2-4) by (intro find_first) auto
  moreover have "k \<notin> set (keys xs)"
    using assms(1,5) by simp
  then have "AList.map_entry k (AList.update ''note'' (PStr n)) (jdata st)
               = xs @ (k, AList.update ''note'' (PStr n) v) # ys"
    unfolding assms(1) by (rule map_entry_middle)
  ultimately show ?thesis by (simp add: json_update_movie_def Let_def)
qed

lemma json_init_empty: "json_init [] = \<lparr>jdata = [], jdisk = []\<rparr>"
  by (simp add: json_init_def json_load_def dict_of_pairs_def)

lemma json_add_fresh:
  "title \<notin> set (keys (jdata st)) \<Longrightarrow>
   json_add_movie title year rating poster st =
     (title @ '' has been added to the database'',
      \<lparr>jdata = jdata st @ [(title, [(''year'', year), (''rating'', rating), (''image-url'', poster)])],
       jdisk = json_dump
                 (jdata st @ [(title, [(''year'', year), (''rating'', rating), (''image-url'', poster)])])\<rparr>)"
  by (simp add: json_add_movie_def update_absent Let_def)

lemma json_add_duplicate:
  "title \<in> set (keys (jdata st)) \<Longrightarrow>
   json_add_movie title year rating poster st = (''Movie already exists'', st)"
  by (simp add: json_add_movie_def)


lemma json_add_is_listed:
  assumes "t \<notin> set (keys (jdata js))"
  shows "\<exists>js'. json_add_movie t y r p js = (t @ '' has been added to the database'', js')
           \<and> map_of (json_list_movies js') t
               = Some [(''year'', y), (''rating'', r), (''image-url'', p)]
           \<and> json_add_movie t y2 r2 p2 js' = (''Movie already exists'', js')"
proof -
  let ?v = "[(''year'', y), (''rating'', r), (''image-url'', p)]"
  let ?js' = "\<lparr>jdata = jdata js @ [(t, ?v)], jdisk = json_dump (jdata js @ [(t, ?v)])\<rparr>"
  have 1: "json_add_movie t y r p js = (t @ '' has been added to the database'', ?js')"
    using assms by (rule json_add_fresh)
  have "map_of (jdata js) t = None" using assms by (simp add: map_of_keys)
  then have 2: "map_of (json_list_movies ?js') t = Some ?v"
    by (simp add: json_list_movies_def map_add_def)
  have 3: "json_add_movie t y2 r2 p2 ?js' = (''Movie already exists'', ?js')"
    by (rule json_add_duplicate) simp
  from 1 2 3 show ?thesis by blast
qed


lemma json_delete_exact:
  assumes "distinct (keys (jdata js))" and "t \<in> set (keys (jdata js))"
    and "\<forall>k \<in> set (keys (jdata js)). lower t = lower k \<longrightarrow> k = t"
  shows "json_delete_movie t js =
           (t @ '' has been deleted from the database'',
            \<lparr>jdata = AList.delete t (jdata js), jdisk = json_dump (AList.delete t (jdata js))\<rparr>)"
proof -
  from key_decomp [OF assms(2)] obtain xs v ys where
    d: "jdata js = xs @ (t, v) # ys" and n: "t \<notin> set (keys xs)"
    by blast
  from d n assms(3) have "\<forall>k' \<in> set (keys xs). lower t \<noteq> lower k'" by auto
  from json_delete_first [OF d this refl assms(1)] d assms(1) show ?thesis
    by (simp add: delete_middle)
qed


lemma values_update: "set (map snd (AList.update k v d)) \<subseteq> insert v (set (map snd d))"
  by (induction d) auto

lemma values_delete: "set (map snd (AList.delete k d)) \<subseteq> set (map snd d)"
  by (auto simp: AList.delete_eq)

lemma values_map_entry: "set (map snd (AList.map_entry k f d)) \<subseteq> set (map snd d) \<union> f ` set (map snd d)"
  by (induction d) auto

lemma keys_delete_distinct: "distinct (keys d) \<Longrightarrow> distinct (keys (AList.delete k d))"
  by (simp add: keys_def distinct_delete)

lemma keys_map_entry: "keys (AList.map_entry k f d) = keys d"
  by (induction d) (auto simp: keys_def)

lemma wf_documentI:
  "distinct (keys d) \<Longrightarrow> (\<And>a. a \<in> set (map snd d) \<Longrightarrow> distinct (keys a)) \<Longrightarrow> wf_document d"
  unfolding wf_document_def by blast

lemma wf_documentD:
  "wf_document d \<Longrightarrow> distinct (keys d)"
  "wf_document d \<Longrightarrow> a \<in> set (map snd d) \<Longrightarrow> distinct (keys a)"
  unfolding wf_document_def by blast+

lemma wf_update:
  assumes "wf_document d" and "distinct (keys v)"
  shows "wf_document (AList.update k v d)"
proof (rule wf_documentI)
  show "distinct (keys (AList.update k v d))"
    using wf_documentD(1) [OF assms(1)] by (simp add: keys_update)
next
  fix a assume "a \<in> set (map snd (AList.update k v d))"
  then have "a = v \<or> a \<in> set (map snd d)" using values_update [of k v d] by blast
  then show "distinct (keys a)" using assms wf_documentD(2) by blast
qed

lemma wf_delete:
  assumes "wf_document d"
  shows "wf_document (AList.delete k d)"
proof (rule wf_documentI)
  show "distinct (keys (AList.delete k d))"
    using wf_documentD(1) [OF assms] by (rule keys_delete_distinct)
next
  fix a assume "a \<in> set (map snd (AList.delete k d))"
  then have "a \<in> set (map snd d)" using values_delete [of k d] by blast
  then show "distinct (keys a)" using assms wf_documentD(2) by blast
qed

lemma wf_map_entry_note:
  assumes "wf_document d"
  shows "wf_document (AList.map_entry k (AList.update ''note'' v) d)"
proof (rule wf_documentI)
  show "distinct (keys (AList.map_entry k (AList.update ''note'' v) d))"
    using wf_documentD(1) [OF assms] by (simp add: keys_map_entry)
next
  fix a assume "a \<in> set (map snd (AList.map_entry k (AList.update ''note'' v) d))"
  then have "a \<in> set (map snd d) \<or> a \<in> AList.update ''note'' v ` set (map snd d)"
    using values_map_entry [of k "AList.update ''note'' v" d] by blast
  then show "distinct (keys a)"
  proof
    assume "a \<in> set (map snd d)"
    then show ?thesis using assms wf_documentD(2) by blast
  next
    assume "a \<in> AList.update ''note'' v ` set (map snd d)"
    then obtain b where "b \<in> set (map snd d)" "a = AList.update ''note'' v b" by blast
    then show ?thesis using wf_documentD(2) [OF assms] by (simp add: keys_update)
  qed
qed

lemma json_call_inv:
  assumes "wf_document (jdata js)" and "json_load (jdisk js) = jdata js"
  shows "wf_document (jdata (snd (json_call c js)))
       \<and> json_load (jdisk (snd (json_call c js))) = jdata (snd (json_call c js))"
proof (cases c)
  case (JAdd t y r p)
  have "distinct (keys [(''year'', y), (''rating'', r), (''image-url'', p)])" by simp
  with assms(1) have "wf_document (AList.update t [(''year'', y), (''rating'', r), (''image-url'', p)] (jdata js))"
    by (rule wf_update)
  with assms JAdd show ?thesis
    by (simp add: json_add_movie_def Let_def json_load_dump)
next
  case (JDelete t)
  from assms(1) have "wf_document (AList.delete k (jdata js))" for k by (rule wf_delete)
  with assms JDelete show ?thesis
    by (simp add: json_delete_movie_def Let_def json_load_dump split: option.splits)
next
  case (JUpdate t n)
  from assms(1) have "wf_document (AList.map_entry k (AList.update ''note'' (PStr n)) (jdata js))" for k
    by (rule wf_map_entry_note)
  with assms JUpdate show ?thesis
    by (simp add: json_update_movie_def Let_def json_load_dump split: option.splits prod.splits)
qed

lemma json_session_inv:
  "wf_document (jdata js) \<Longrightarrow> json_load (jdisk js) = jdata js \<Longrightarrow>
   wf_document (jdata (json_session cs js))
   \<and> json_load (jdisk (json_session cs js)) = jdata (json_session cs js)"
proof (induction cs arbitrary: js)
  case Nil
  then show ?case by simp
next
  case (Cons c cs)
  from json_call_inv [OF Cons.prems, of c] Cons.IH [of "snd (json_call c js)"]
  show ?case by simp
qed

lemma json_reload_same:
  "json_list_movies (json_init (jdisk (json_session cs (json_init f))))
     = json_list_movies (json_session cs (json_init f))"
proof -
  have "wf_document (jdata (json_init f))" "json_load (jdisk (json_init f)) = jdata (json_init f)"
    by (simp_all add: json_init_def wf_json_load)
  from json_session_inv [OF this, of cs] show ?thesis
    by (simp add: json_list_movies_def json_init_def)
qed



lemma json_session_wf: "wf_document (jdata (json_session cs (json_init f)))"
proof -
  have "wf_document (jdata (json_init f))" "json_load (jdisk (json_init f)) = jdata (json_init f)"
    by (simp_all add: json_init_def wf_json_load)
  from json_session_inv [OF this, of cs] show ?thesis by simp
qed



subsection \<open>Deleting from the document\<close>

text \<open>
  Claim C4. In the structured-document store \<^verbatim>\<open>delete(t)\<close> scans the stored titles in
  their order and compares them with \<open>t\<close> in lower case. If no stored title matches, the
  call returns the not-found message and the store is as before. Otherwise the document
  splits at the first matching title; the call returns the deleted message, that one
  entry is gone, the entries before and after it stay as they were, and the file holds
  the new document.
\<close>

theorem json_delete_first_match:
  assumes "distinct (keys (jdata st))"
  shows "((\<forall>k \<in> set (keys (jdata st)). lower t \<noteq> lower k) \<longrightarrow>
            json_delete_movie t st = (t @ '' does not exist in the database'', st))
       \<and> (\<forall>xs k v ys.
             jdata st = xs @ (k, v) # ys
               \<and> (\<forall>k' \<in> set (keys xs). lower t \<noteq> lower k') \<and> lower t = lower k \<longrightarrow>
             json_delete_movie t st =
               (t @ '' has been deleted from the database'',
                \<lparr>jdata = xs @ ys, jdisk = json_dump (xs @ ys)\<rparr>))
       \<and> ((\<exists>k \<in> set (keys (jdata st)). lower t = lower k) \<longrightarrow>
            (\<exists>xs k v ys. jdata st = xs @ (k, v) # ys
               \<and> (\<forall>k' \<in> set (keys xs). lower t \<noteq> lower k') \<and> lower t = lower k))"
proof (intro conjI impI allI)
  assume "\<forall>k \<in> set (keys (jdata st)). lower t \<noteq> lower k"
  then show "json_delete_movie t st = (t @ '' does not exist in the database'', st)"
    by (rule json_delete_absent)
next
  fix xs k v ys
  assume h: "jdata st = xs @ (k, v) # ys
            \<and> (\<forall>k' \<in> set (keys xs). lower t \<noteq> lower k') \<and> lower t = lower k"
  from h have a: "jdata st = xs @ (k, v) # ys" by (rule conjunct1)
  from h have b: "\<forall>k' \<in> set (keys xs). lower t \<noteq> lower k'" by blast
  from h have c: "lower t = lower k" by blast
  show "json_delete_movie t st =
               (t @ '' has been deleted from the database'',
                \<lparr>jdata = xs @ ys, jdisk = json_dump (xs @ ys)\<rparr>)"
    by (rule json_delete_first [OF a b c assms])
next
  assume "\<exists>k \<in> set (keys (jdata st)). lower t = lower k"
  then show "\<exists>xs k v ys. jdata st = xs @ (k, v) # ys
      \<and> (\<forall>k' \<in> set (keys xs). lower t \<noteq> lower k') \<and> lower t = lower k"
    using first_key_decomp [of "jdata st" "\<lambda>k. lower t = lower k"] by simp
qed

text \<open>
  The theorem at a document with the titles \<^verbatim>\<open>Up\<close> and \<^verbatim>\<open>up\<close>: deleting \<^verbatim>\<open>UP\<close> removes the
  first of them, deleting \<^verbatim>\<open>Down\<close> removes nothing.
\<close>

theorem json_delete_first_match_witness:
  "distinct (keys (jdata \<lparr>jdata = [(''Up'', [(''year'', PInt 2009)]), (''up'', [(''year'', PInt 1999)])],
                       jdisk = []\<rparr>))
   \<and> json_delete_movie ''UP''
        \<lparr>jdata = [(''Up'', [(''year'', PInt 2009)]), (''up'', [(''year'', PInt 1999)])],
         jdisk = []\<rparr>
      = (''UP has been deleted from the database'',
         \<lparr>jdata = [(''up'', [(''year'', PInt 1999)])],
          jdisk = [(''up'', [(''year'', PInt 1999)])]\<rparr>)
   \<and> json_delete_movie ''Down''
        \<lparr>jdata = [(''Up'', [(''year'', PInt 2009)]), (''up'', [(''year'', PInt 1999)])],
         jdisk = []\<rparr>
      = (''Down does not exist in the database'',
         \<lparr>jdata = [(''Up'', [(''year'', PInt 2009)]), (''up'', [(''year'', PInt 1999)])],
          jdisk = []\<rparr>)"
proof -
  let ?st = "\<lparr>jdata = [(''Up'', [(''year'', PInt 2009)]), (''up'', [(''year'', PInt 1999)])],
              jdisk = []\<rparr>"
  have d: "distinct (keys (jdata ?st))" by simp
  have "jdata ?st = [] @ (''Up'', [(''year'', PInt 2009)]) # [(''up'', [(''year'', PInt 1999)])]
          \<and> (\<forall>k' \<in> set (keys []). lower ''UP'' \<noteq> lower k') \<and> lower ''UP'' = lower ''Up''"
    by (simp add: lower_examples)
  with json_delete_first_match [OF d, of "''UP''"]
  have 1: "json_delete_movie ''UP'' ?st
      = (''UP has been deleted from the database'',
         \<lparr>jdata = [(''up'', [(''year'', PInt 1999)])],
          jdisk = [(''up'', [(''year'', PInt 1999)])]\<rparr>)"
    by (metis append_Nil json_dump_def append_Nil2 append.simps)
  have "\<forall>k \<in> set (keys (jdata ?st)). lower ''Down'' \<noteq> lower k"
    by (simp add: lower_examples)
  with json_delete_first_match [OF d, of "''Down''"]
  have 2: "json_delete_movie ''Down'' ?st = (''Down does not exist in the database'', ?st)"
    by simp
  from d 1 2 show ?thesis by simp
qed

subsection \<open>Annotating a movie of the document\<close>

text \<open>
  Claim C5. In the structured-document store \<^verbatim>\<open>update(t, note)\<close> looks for the first entry
  whose title equals \<open>t\<close> in lower case and whose attributes have the key \<^verbatim>\<open>image-url\<close>.
  If there is none, the call returns the one combined failure message and the store is
  as before. Otherwise the note is stored in the attributes of that entry, under the
  title as it is stored, and the file holds the new document. The call fails with that
  message exactly when no entry qualifies.
\<close>

theorem json_update_needs_image_url:
  assumes "distinct (keys (jdata st))"
  shows "((\<forall>(k, v) \<in> set (jdata st). \<not> (lower t = lower k \<and> ''image-url'' \<in> set (keys v))) \<longrightarrow>
            json_update_movie t n st =
              (''Movie does not exist or does not have an '' @ [CHR 0x27] @ ''image-url''
                 @ [CHR 0x27] @ '' field.'', st))
       \<and> (\<forall>xs k v ys.
             jdata st = xs @ (k, v) # ys
               \<and> (\<forall>(k', v') \<in> set xs. \<not> (lower t = lower k' \<and> ''image-url'' \<in> set (keys v')))
               \<and> lower t = lower k \<and> ''image-url'' \<in> set (keys v) \<longrightarrow>
             json_update_movie t n st =
               (''Note added to the movie '' @ [CHR 0x27] @ k @ [CHR 0x27]
                  @ '' successfully. Now try to hover over the movie'',
                \<lparr>jdata = xs @ (k, AList.update ''note'' (PStr n) v) # ys,
                 jdisk = json_dump (xs @ (k, AList.update ''note'' (PStr n) v) # ys)\<rparr>)
             \<and> (\<exists>v'. map_of (json_list_movies (snd (json_update_movie t n st))) k = Some v'
                      \<and> map_of v' ''note'' = Some (PStr n)))
       \<and> ((\<exists>(k, v) \<in> set (jdata st). lower t = lower k \<and> ''image-url'' \<in> set (keys v)) \<longleftrightarrow>
            fst (json_update_movie t n st) \<noteq>
              ''Movie does not exist or does not have an '' @ [CHR 0x27] @ ''image-url''
                 @ [CHR 0x27] @ '' field.'')"
proof (intro conjI impI allI)
  assume "\<forall>(k, v) \<in> set (jdata st). \<not> (lower t = lower k \<and> ''image-url'' \<in> set (keys v))"
  then show "json_update_movie t n st =
              (''Movie does not exist or does not have an '' @ [CHR 0x27] @ ''image-url''
                 @ [CHR 0x27] @ '' field.'', st)"
    by (rule json_update_none)
next
  fix xs k v ys
  assume h: "jdata st = xs @ (k, v) # ys
               \<and> (\<forall>(k', v') \<in> set xs. \<not> (lower t = lower k' \<and> ''image-url'' \<in> set (keys v')))
               \<and> lower t = lower k \<and> ''image-url'' \<in> set (keys v)"
  from h have a: "jdata st = xs @ (k, v) # ys" by (rule conjunct1)
  from h have b: "\<forall>(k', v') \<in> set xs. \<not> (lower t = lower k' \<and> ''image-url'' \<in> set (keys v'))"
    by blast
  from h have c: "lower t = lower k" and d: "''image-url'' \<in> set (keys v)" by blast+
  show r: "json_update_movie t n st =
               (''Note added to the movie '' @ [CHR 0x27] @ k @ [CHR 0x27]
                  @ '' successfully. Now try to hover over the movie'',
                \<lparr>jdata = xs @ (k, AList.update ''note'' (PStr n) v) # ys,
                 jdisk = json_dump (xs @ (k, AList.update ''note'' (PStr n) v) # ys)\<rparr>)"
    by (rule json_update_first [OF a b c d assms])
  have "k \<notin> set (keys xs)" using a assms by simp
  then have "map_of (xs @ (k, AList.update ''note'' (PStr n) v) # ys) k
               = Some (AList.update ''note'' (PStr n) v)"
    by (simp add: map_add_def map_of_eq_None_iff [THEN iffD2] set_keys)
  moreover have "map_of (AList.update ''note'' (PStr n) v) ''note'' = Some (PStr n)"
    by (simp add: update_conv')
  ultimately show "\<exists>v'. map_of (json_list_movies (snd (json_update_movie t n st))) k = Some v'
                      \<and> map_of v' ''note'' = Some (PStr n)"
    unfolding r by (simp add: json_list_movies_def)
next
  show "(\<exists>(k, v) \<in> set (jdata st). lower t = lower k \<and> ''image-url'' \<in> set (keys v)) \<longleftrightarrow>
            fst (json_update_movie t n st) \<noteq>
              ''Movie does not exist or does not have an '' @ [CHR 0x27] @ ''image-url''
                 @ [CHR 0x27] @ '' field.''"
  proof (cases "find (\<lambda>(k, v). lower t = lower k \<and> ''image-url'' \<in> set (keys v)) (jdata st)")
    case None
    then have "fst (json_update_movie t n st) =
              ''Movie does not exist or does not have an '' @ [CHR 0x27] @ ''image-url''
                 @ [CHR 0x27] @ '' field.''"
      by (simp add: json_update_movie_def)
    moreover from None
    have "\<not> (\<exists>(k, v) \<in> set (jdata st). lower t = lower k \<and> ''image-url'' \<in> set (keys v))"
      by (auto simp: find_None_iff)
    ultimately show ?thesis by simp
  next
    case (Some p)
    then have "p \<in> set (jdata st)"
      "case p of (k, v) \<Rightarrow> lower t = lower k \<and> ''image-url'' \<in> set (keys v)"
      using find_decomp [OF Some] by auto
    then have "\<exists>(k, v) \<in> set (jdata st). lower t = lower k \<and> ''image-url'' \<in> set (keys v)"
      by blast
    with Some show ?thesis
      by (simp add: json_update_movie_def Let_def split: prod.splits)
  qed
qed


text \<open>
  The scenario of the specification: after \<^verbatim>\<open>add("Inception", ..., "http://x/p.jpg")\<close> on the
  empty document, \<^verbatim>\<open>update("inception", "great")\<close> stores the note under \<^verbatim>\<open>Inception\<close>;
  an entry without \<^verbatim>\<open>image-url\<close> cannot be annotated.
\<close>

theorem json_update_needs_image_url_witness:
  "json_update_movie ''inception'' ''great''
     (snd (json_add_movie ''Inception'' (PInt 2010) (PFloat (44 / 5)) (PStr ''http://x/p.jpg'')
             (json_init [])))
   = (''Note added to the movie '' @ [CHR 0x27] @ ''Inception'' @ [CHR 0x27]
        @ '' successfully. Now try to hover over the movie'',
      \<lparr>jdata = [(''Inception'', [(''year'', PInt 2010), (''rating'', PFloat (44 / 5)),
                                 (''image-url'', PStr ''http://x/p.jpg''),
                                 (''note'', PStr ''great'')])],
       jdisk = [(''Inception'', [(''year'', PInt 2010), (''rating'', PFloat (44 / 5)),
                                 (''image-url'', PStr ''http://x/p.jpg''),
                                 (''note'', PStr ''great'')])]\<rparr>)
   \<and> json_update_movie ''Up'' ''great''
       \<lparr>jdata = [(''Up'', [(''year'', PInt 2009)])], jdisk = [(''Up'', [(''year'', PInt 2009)])]\<rparr>
     = (''Movie does not exist or does not have an '' @ [CHR 0x27] @ ''image-url''
          @ [CHR 0x27] @ '' field.'',
        \<lparr>jdata = [(''Up'', [(''year'', PInt 2009)])], jdisk = [(''Up'', [(''year'', PInt 2009)])]\<rparr>)"
proof -
  let ?v = "[(''year'', PInt 2010), (''rating'', PFloat (44 / 5)),
             (''image-url'', PStr ''http://x/p.jpg'')]"
  let ?st = "\<lparr>jdata = [(''Inception'', ?v)], jdisk = json_dump [(''Inception'', ?v)]\<rparr>"
  have st: "snd (json_add_movie ''Inception'' (PInt 2010) (PFloat (44 / 5))
                   (PStr ''http://x/p.jpg'') (json_init [])) = ?st"
    by (simp add: json_init_empty json_add_fresh)
  have d: "distinct (keys (jdata ?st))" by simp
  have "jdata ?st = [] @ (''Inception'', ?v) # []
          \<and> (\<forall>(k', v') \<in> set []. \<not> (lower ''inception'' = lower k' \<and> ''image-url'' \<in> set (keys v')))
          \<and> lower ''inception'' = lower ''Inception'' \<and> ''image-url'' \<in> set (keys ?v)"
    by (simp add: lower_examples)
  with json_update_needs_image_url [OF d, of "''inception''" "''great''"]
  have 1: "json_update_movie ''inception'' ''great'' ?st =
               (''Note added to the movie '' @ [CHR 0x27] @ ''Inception'' @ [CHR 0x27]
                  @ '' successfully. Now try to hover over the movie'',
                \<lparr>jdata = [] @ (''Inception'', AList.update ''note'' (PStr ''great'') ?v) # [],
                 jdisk = json_dump ([] @ (''Inception'', AList.update ''note'' (PStr ''great'') ?v) # [])\<rparr>)"
    by blast
  let ?st2 = "\<lparr>jdata = [(''Up'', [(''year'', PInt 2009)])], jdisk = [(''Up'', [(''year'', PInt 2009)])]\<rparr>"
  have d2: "distinct (keys (jdata ?st2))" by simp
  have "\<forall>(k, v) \<in> set (jdata ?st2). \<not> (lower ''Up'' = lower k \<and> ''image-url'' \<in> set (keys v))"
    by simp
  with json_update_needs_image_url [OF d2, of "''Up''" "''great''"]
  have 2: "json_update_movie ''Up'' ''great'' ?st2 =
       (''Movie does not exist or does not have an '' @ [CHR 0x27] @ ''image-url''
          @ [CHR 0x27] @ '' field.'', ?st2)"
    by blast
  show ?thesis
    unfolding st using 1 2 by (simp add: json_dump_def)
qed


subsection \<open>The end-to-end scenario\<close>

text \<open>
  Claim C9, as the code has it. From the empty document, \<^verbatim>\<open>add("Up", 2009, 8.2, "url1")\<close>
  returns \<^verbatim>\<open>Up has been added to the database\<close>, which contains \<^verbatim>\<open>Up\<close>; then
  \<^verbatim>\<open>delete("Down")\<close> returns \<^verbatim>\<open>Down does not exist in the database\<close>, which contains
  \<^verbatim>\<open>Down\<close>; then a second \<^verbatim>\<open>add("Up", ...)\<close> returns the fixed text
  \<^verbatim>\<open>Movie already exists\<close>.
\<close>

theorem json_end_to_end:
  "fst (json_add_movie ''Up'' (PInt 2009) (PFloat (41 / 5)) (PStr ''url1'') (json_init []))
     = ''Up has been added to the database''
   \<and> str_contains
       (fst (json_add_movie ''Up'' (PInt 2009) (PFloat (41 / 5)) (PStr ''url1'') (json_init [])))
       ''Up''
   \<and> fst (json_delete_movie ''Down''
            (snd (json_add_movie ''Up'' (PInt 2009) (PFloat (41 / 5)) (PStr ''url1'') (json_init []))))
     = ''Down does not exist in the database''
   \<and> str_contains
       (fst (json_delete_movie ''Down''
            (snd (json_add_movie ''Up'' (PInt 2009) (PFloat (41 / 5)) (PStr ''url1'') (json_init [])))))
       ''Down''
   \<and> fst (json_add_movie ''Up'' year rating poster
            (snd (json_delete_movie ''Down''
               (snd (json_add_movie ''Up'' (PInt 2009) (PFloat (41 / 5)) (PStr ''url1'')
                       (json_init []))))))
     = ''Movie already exists''"
proof -
  let ?v = "[(''year'', PInt 2009), (''rating'', PFloat (41 / 5)), (''image-url'', PStr ''url1'')]"
  let ?st = "\<lparr>jdata = [(''Up'', ?v)], jdisk = json_dump [(''Up'', ?v)]\<rparr>"
  have 1: "json_add_movie ''Up'' (PInt 2009) (PFloat (41 / 5)) (PStr ''url1'') (json_init [])
             = (''Up has been added to the database'', ?st)"
    by (simp add: json_init_empty json_add_fresh)
  have "\<forall>k \<in> set (keys (jdata ?st)). lower ''Down'' \<noteq> lower k"
    by (simp add: lower_examples)
  then have 2: "json_delete_movie ''Down'' ?st = (''Down does not exist in the database'', ?st)"
    using json_delete_absent [of ?st "''Down''"] by simp
  have 3: "json_add_movie ''Up'' year rating poster ?st = (''Movie already exists'', ?st)"
    by (simp add: json_add_duplicate)
  have 4: "str_contains ''Up has been added to the database'' ''Up''"
    "str_contains ''Down does not exist in the database'' ''Down''"
    by simp_all
  show ?thesis
    unfolding 1 fst_conv snd_conv 2 3 using 4 by simp
qed

text \<open>
  The claim says that the duplicate message contains \<^verbatim>\<open>Up\<close>. The message is the same
  for every title and does not name it.
\<close>

theorem json_duplicate_message_counterexample:
  "\<not> str_contains
       (fst (json_add_movie ''Up'' (PInt 2009) (PFloat (41 / 5)) (PStr ''url1'')
               (snd (json_delete_movie ''Down''
                  (snd (json_add_movie ''Up'' (PInt 2009) (PFloat (41 / 5)) (PStr ''url1'')
                          (json_init [])))))))
       ''Up''"
proof -
  let ?v = "[(''year'', PInt 2009), (''rating'', PFloat (41 / 5)), (''image-url'', PStr ''url1'')]"
  let ?st = "\<lparr>jdata = [(''Up'', ?v)], jdisk = json_dump [(''Up'', ?v)]\<rparr>"
  have 1: "json_add_movie ''Up'' (PInt 2009) (PFloat (41 / 5)) (PStr ''url1'') (json_init [])
             = (''Up has been added to the database'', ?st)"
    by (simp add: json_init_empty json_add_fresh)
  have "\<forall>k \<in> set (keys (jdata ?st)). lower ''Down'' \<noteq> lower k"
    by (simp add: lower_examples)
  then have 2: "json_delete_movie ''Down'' ?st = (''Down does not exist in the database'', ?st)"
    using json_delete_absent [of ?st "''Down''"] by simp
  have 3: "json_add_movie ''Up'' (PInt 2009) (PFloat (41 / 5)) (PStr ''url1'') ?st
             = (''Movie already exists'', ?st)"
    by (simp add: json_add_duplicate)
  have 4: "\<not> str_contains ''Movie already exists'' ''Up''"
    by simp
  show ?thesis
    unfolding 1 fst_conv snd_conv 2 3 using 4 by simp
qed

section \<open>The delimited-text store: properties\<close>

lemma complete_row_project: "complete_row r \<longleftrightarrow> project r \<noteq> None"
  by (auto simp: complete_row_def project_def map_of_keys_Some split: option.splits)

lemma project_title:
  "project r = Some (t, info) \<Longrightarrow> map_of (entries r) ''title'' = Some t"
  by (auto simp: project_def split: option.splits)

lemma project_keys:
  "project r = Some (t, info) \<Longrightarrow> keys info = [''year'', ''rating'', ''poster'']"
  by (auto simp: project_def split: option.splits)

lemma list_loop_step:
  "list_loop (r # rest) d =
     (case project r of
        None \<Rightarrow> Inl KeyError
      | Some (t, info) \<Rightarrow> list_loop rest (AList.update t info d))"
  by (simp add: project_def split: option.splits)

lemma list_loop_append:
  "list_loop (xs @ ys) d =
     (case list_loop xs d of Inl e \<Rightarrow> Inl e | Inr d' \<Rightarrow> list_loop ys d')"
proof (induction xs arbitrary: d)
  case Nil
  then show ?case by simp
next
  case (Cons r xs)
  show ?case
  proof (cases "project r")
    case None
    then show ?thesis by (simp add: list_loop_step del: list_loop.simps)
  next
    case (Some p)
    then show ?thesis
      using Cons.IH by (cases p) (simp add: list_loop_step del: list_loop.simps)
  qed
qed

lemma list_loop_error:
  "list_loop rows d = Inl e \<Longrightarrow> e = KeyError \<and> (\<exists>r \<in> set rows. \<not> complete_row r)"
proof (induction rows arbitrary: d)
  case Nil
  then show ?case by simp
next
  case (Cons r rows)
  show ?case
  proof (cases "project r")
    case None
    with Cons.prems show ?thesis
      by (simp add: list_loop_step complete_row_project del: list_loop.simps)
  next
    case (Some p)
    with Cons show ?thesis
      by (cases p) (auto simp: list_loop_step simp del: list_loop.simps)
  qed
qed

lemma list_loop_complete:
  "\<forall>r \<in> set rows. complete_row r \<Longrightarrow> \<exists>d'. list_loop rows d = Inr d'"
  using list_loop_error [of rows d] by (cases "list_loop rows d") auto

lemma list_loop_returns:
  "list_loop rows d = Inr d' \<Longrightarrow>
     (\<forall>r \<in> set rows. complete_row r)
   \<and> set (keys d') = set (keys d) \<union> {t. \<exists>r \<in> set rows. map_of (entries r) ''title'' = Some t}
   \<and> (\<forall>(t, info) \<in> set d'. (t, info) \<in> set d \<or> keys info = [''year'', ''rating'', ''poster''])
   \<and> (rows \<noteq> [] \<longrightarrow> d' \<noteq> [])"
proof (induction rows arbitrary: d)
  case Nil
  then show ?case by auto
next
  case (Cons r rows)
  from Cons.prems obtain t info where p: "project r = Some (t, info)"
    and l: "list_loop rows (AList.update t info d) = Inr d'"
    by (auto simp: list_loop_step simp del: list_loop.simps split: option.splits)
  note ih = Cons.IH [OF l]
  have c: "complete_row r" using p by (simp add: complete_row_project)
  have t: "map_of (entries r) ''title'' = Some t" using p by (rule project_title)
  have k: "keys info = [''year'', ''rating'', ''poster'']" using p by (rule project_keys)
  have s: "set (AList.update t info d) \<subseteq> insert (t, info) (set d)"
    by (induction d) auto
  have 1: "\<forall>r' \<in> set (r # rows). complete_row r'" using ih c by simp
  have 2: "set (keys d') = set (keys d) \<union> {t'. \<exists>r' \<in> set (r # rows). map_of (entries r') ''title'' = Some t'}"
    using ih t by (auto simp: keys_update split: if_splits)
  have 3: "\<forall>(t', info') \<in> set d'. (t', info') \<in> set d \<or> keys info' = [''year'', ''rating'', ''poster'']"
    using ih s k by fastforce
  have 4: "d' \<noteq> []"
  proof
    assume "d' = []"
    with ih have "set (keys (AList.update t info d)) \<subseteq> {}" by auto
    then show False by (simp add: keys_update split: if_splits)
  qed
  from 1 2 3 4 show ?case by blast
qed

lemma list_loop_distinct:
  "map project rows = map Some es \<Longrightarrow> distinct (keys (d @ es)) \<Longrightarrow>
   list_loop rows d = Inr (d @ es)"
proof (induction rows arbitrary: d es)
  case Nil
  then show ?case by simp
next
  case (Cons r rows)
  from Cons.prems(1) obtain e es' where es: "es = e # es'" "project r = Some e"
    "map project rows = map Some es'"
    by (cases es) auto
  obtain t info where e: "e = (t, info)" by (cases e)
  from Cons.prems(2) es e have "t \<notin> set (keys d)" by auto
  then have u: "AList.update t info d = d @ [(t, info)]" by (rule update_absent)
  from Cons.prems(2) es e have "distinct (keys ((d @ [(t, info)]) @ es'))" by simp
  from Cons.IH [OF es(3) this] u es e show ?case
    by (simp add: list_loop_step del: list_loop.simps)
qed

lemma dict_to_list_writable:
  "dict_to_list repr r = (if writable_row r then Inr (line_of repr r) else Inl ValueError)"
  by (auto simp: dict_to_list_def writable_row_def line_of_def)

lemma writerows_writable:
  "\<forall>r \<in> set rows. writable_row r \<Longrightarrow>
   writerows repr rows f = (f @ map (line_of repr) rows, None)"
  by (induction rows arbitrary: f) (simp_all add: dict_to_list_writable)

lemma writerows_returns:
  "writerows repr rows f = (f', None) \<Longrightarrow> \<forall>r \<in> set rows. writable_row r"
  by (induction rows arbitrary: f)
     (auto simp: dict_to_list_writable split: if_splits)

lemma write_file_writable:
  "\<forall>r \<in> set rows. writable_row r \<Longrightarrow>
   write_file repr rows = (header # map (line_of repr) rows, None)"
  by (simp add: write_file_def writerows_writable)

lemma write_file_returns:
  "write_file repr rows = (f, None) \<Longrightarrow>
   (\<forall>r \<in> set rows. writable_row r) \<and> f = header # map (line_of repr) rows"
  using writerows_returns [of repr rows "[header]" f] write_file_writable [of rows repr]
  by (auto simp: write_file_def)

lemma persist_writable:
  "\<forall>r \<in> set (data st). writable_row r \<Longrightarrow>
   persist repr m st = (Inr m, st\<lparr>disk := header # map (line_of repr) (data st)\<rparr>)"
  by (simp add: persist_def write_file_writable)

lemma persist_returns:
  "persist repr m st = (Inr m', st') \<Longrightarrow>
   m' = m \<and> (\<forall>r \<in> set (data st). writable_row r)
   \<and> st' = st\<lparr>disk := header # map (line_of repr) (data st)\<rparr>"
proof -
  assume a: "persist repr m st = (Inr m', st')"
  obtain f e where w: "write_file repr (data st) = (f, e)" by (cases "write_file repr (data st)")
  with a have "e = None" by (cases e) (auto simp: persist_def)
  with w write_file_returns [of repr "data st" f] a show ?thesis
    by (auto simp: persist_def)
qed

lemma delete_scan_absent:
  "\<forall>r \<in> set rows. ''title'' \<in> set (keys (entries r)) \<and> \<not> has_title t r \<Longrightarrow>
   delete_scan t rows = Inr None"
  by (induction rows) (auto simp: has_title_def map_of_keys_Some)

lemma delete_scan_first:
  "\<forall>r \<in> set xs. ''title'' \<in> set (keys (entries r)) \<and> \<not> has_title t r \<Longrightarrow> has_title t r \<Longrightarrow>
   delete_scan t (xs @ r # ys) = Inr (Some r) \<and> remove1 r (xs @ r # ys) = xs @ ys"
proof (induction xs)
  case Nil
  then show ?case by (simp add: has_title_def)
next
  case (Cons x xs)
  then have "x \<noteq> r" by auto
  with Cons show ?case by (auto simp: has_title_def map_of_keys_Some)
qed

lemma update_loop_absent:
  "\<forall>r \<in> set rows. ''title'' \<in> set (keys (entries r)) \<and> \<not> has_title t r \<Longrightarrow>
   update_loop t n rows = (rows, None)"
  by (induction rows) (auto simp: has_title_def map_of_keys_Some)

lemma project_notes:
  "project (Row (AList.update ''notes'' v es) rk) = project (Row es rk)"
  by (simp add: project_def update_conv')

lemma update_loop_returns:
  "update_loop t n rows = (rows', None) \<Longrightarrow>
     map project rows' = map project rows
   \<and> (\<forall>r \<in> set rows. ''title'' \<in> set (keys (entries r)))
   \<and> ((\<forall>r \<in> set rows. writable_row r) \<longrightarrow> (\<forall>r' \<in> set rows'. writable_row r'))"
proof (induction rows arbitrary: rows')
  case Nil
  then show ?case by simp
next
  case (Cons r rows)
  from Cons.prems obtain tv where tv: "map_of (entries r) ''title'' = Some tv"
    by (cases "map_of (entries r) ''title''") auto
  obtain rest e where rest: "update_loop t n rows = (rest, e)"
    by (cases "update_loop t n rows")
  with Cons.prems tv have e: "e = None" by (auto simp: Let_def)
  define r' where "r' = (if PStr t = tv
      then Row (AList.update ''notes'' (PStr n) (entries r)) (restkey r) else r)"
  from Cons.prems tv rest e have rows': "rows' = r' # rest" by (auto simp: Let_def r'_def)
  have pr: "project r' = project r"
    by (cases r) (simp add: r'_def project_notes)
  have wr: "writable_row r \<Longrightarrow> writable_row r'"
    by (auto simp: r'_def writable_row_def keys_update header_def)
  from Cons.IH [of rest] rest e rows' pr wr tv show ?case
    by (auto simp: map_of_keys_Some)
qed

lemma list_loop_project:
  "map project rows' = map project rows \<Longrightarrow> list_loop rows' d = list_loop rows d"
proof (induction rows arbitrary: rows' d)
  case Nil
  then show ?case by simp
next
  case (Cons r rows)
  then obtain r' rest where "rows' = r' # rest" "project r' = project r"
    "map project rest = map project rows"
    by (cases rows') auto
  with Cons.IH [of rest] show ?case
    by (simp add: list_loop_step del: list_loop.simps split: option.splits)
qed

lemma csv_list_movies_data: "data st' = data st \<Longrightarrow> csv_list_movies st' = csv_list_movies st"
  by (simp add: csv_list_movies_def)

lemma csv_list_empty: "data st = [] \<Longrightarrow> csv_list_movies st = Inr (Sentinel ''Empty Database...'')"
  by (simp add: csv_list_movies_def)


lemma update_loop_notes:
  "update_loop t n rows = (rows', e) \<Longrightarrow>
   (e = None \<longrightarrow> (\<forall>r' \<in> set rows'. has_title t r' \<longrightarrow> map_of (entries r') ''notes'' = Some (PStr n)))
   \<and> ((\<exists>r' \<in> set rows'. has_title t r') \<longleftrightarrow> (\<exists>r \<in> set rows. has_title t r))"
proof (induction rows arbitrary: rows' e)
  case Nil
  then show ?case by simp
next
  case (Cons r rows)
  show ?case
  proof (cases "map_of (entries r) ''title''")
    case None
    with Cons.prems show ?thesis by auto
  next
    case (Some tv)
    obtain rest e' where rest: "update_loop t n rows = (rest, e')"
      by (cases "update_loop t n rows")
    define r' where "r' = (if PStr t = tv
      then Row (AList.update ''notes'' (PStr n) (entries r)) (restkey r) else r)"
    from Cons.prems Some rest have rows': "rows' = r' # rest" "e = e'"
      by (auto simp: Let_def r'_def)
    have ht: "has_title t r' \<longleftrightarrow> has_title t r"
      using Some by (auto simp: r'_def has_title_def update_conv')
    have nt: "has_title t r' \<Longrightarrow> map_of (entries r') ''notes'' = Some (PStr n)"
      using Some by (auto simp: r'_def has_title_def update_conv')
    from Cons.IH [OF rest] rows' ht nt show ?thesis by auto
  qed
qed

lemma csv_update_returns:
  assumes "csv_update_movie repr t n st = (Inr m, st')"
  shows "\<exists>rows'. update_loop t n (data st) = (rows', None)
           \<and> st' = st\<lparr>data := rows', disk := header # map (line_of repr) rows'\<rparr>
           \<and> m = (if \<exists>r \<in> set rows'. has_title t r
                  then t @ '' has been updated'' else t @ '' does not exist'')"
proof -
  obtain rows' e where u: "update_loop t n (data st) = (rows', e)"
    by (cases "update_loop t n (data st)")
  with assms have e: "e = None" by (cases e) (auto simp: csv_update_movie_def)
  let ?m = "if \<exists>movie \<in> set rows'. map_of (entries movie) ''title'' = Some (PStr t)
            then t @ '' has been updated'' else t @ '' does not exist''"
  from assms u e have p: "persist repr ?m (st\<lparr>data := rows'\<rparr>) = (Inr m, st')"
    by (simp add: csv_update_movie_def)
  from persist_returns [OF p] u e show ?thesis
    by (auto simp: has_title_def)
qed

lemma csv_list_nonempty:
  assumes "data st \<noteq> []" and "\<forall>r \<in> set (data st). complete_row r"
  shows "\<exists>d. csv_list_movies st = Inr (Movies d) \<and> d \<noteq> []
            \<and> set (keys d) = {v. \<exists>r \<in> set (data st). map_of (entries r) ''title'' = Some v}
            \<and> (\<forall>(title, info) \<in> set d. keys info = [''year'', ''rating'', ''poster''])"
proof -
  obtain d where d: "list_loop (data st) [] = Inr d"
    using list_loop_complete [OF assms(2), of "[]"] by blast
  note r = list_loop_returns [OF d]
  from r assms(1) have ne: "d \<noteq> []" by blast
  from r have k: "set (keys d) = {v. \<exists>r \<in> set (data st). map_of (entries r) ''title'' = Some v}"
    by simp
  from r have "\<forall>(title, info) \<in> set d.
      (title, info) \<in> set [] \<or> keys info = [''year'', ''rating'', ''poster'']"
    by blast
  then have i: "\<forall>(title, info) \<in> set d. keys info = [''year'', ''rating'', ''poster'']"
    by simp
  from d ne have "csv_list_movies st = Inr (Movies d)"
    by (simp add: csv_list_movies_def)
  with ne k i show ?thesis by blast
qed

lemma csv_list_distinct:
  assumes "data st \<noteq> []" and "map project (data st) = map Some es" and "distinct (keys es)"
  shows "csv_list_movies st = Inr (Movies es)"
proof -
  from assms(3) have "distinct (keys ([] @ es))" by simp
  from list_loop_distinct [OF assms(2) this] have "list_loop (data st) [] = Inr es" by simp
  moreover from assms(1,2) have "es \<noteq> []" by auto
  ultimately show ?thesis by (simp add: csv_list_movies_def)
qed

lemma csv_update_keeps_listing:
  assumes "csv_update_movie repr t n st = (Inr m, st')"
  shows "csv_list_movies st' = csv_list_movies st"
    and "\<forall>r' \<in> set (data st'). has_title t r' \<longrightarrow> map_of (entries r') ''notes'' = Some (PStr n)"
proof -
  from csv_update_returns [OF assms] obtain rows' where
    u: "update_loop t n (data st) = (rows', None)" and st': "data st' = rows'"
    by auto
  from update_loop_returns [OF u] have "map project rows' = map project (data st)" by simp
  then have "list_loop rows' [] = list_loop (data st) []" by (rule list_loop_project)
  then show "csv_list_movies st' = csv_list_movies st"
    using st' by (simp add: csv_list_movies_def)
  from update_loop_notes [OF u] st'
  show "\<forall>r' \<in> set (data st'). has_title t r' \<longrightarrow> map_of (entries r') ''notes'' = Some (PStr n)"
    by simp
qed

lemma csv_update_example:
  "csv_update_movie repr ''Up'' ''nice''
     \<lparr>data = [Row [(''title'', PStr ''Up''), (''year'', PStr ''2009''),
                   (''rating'', PFloat (41 / 5)), (''poster'', PStr ''url1'')] None],
      disk = [header, [''Up'', ''2009'', ''8.2'', ''url1'', []]]\<rparr>
   = (Inr ''Up has been updated'',
      \<lparr>data = [Row [(''title'', PStr ''Up''), (''year'', PStr ''2009''),
                    (''rating'', PFloat (41 / 5)), (''poster'', PStr ''url1''),
                    (''notes'', PStr ''nice'')] None],
       disk = [header, [''Up'', ''2009'', repr (41 / 5), ''url1'', ''nice'']]\<rparr>)"
  by (simp add: csv_update_movie_def persist_def write_file_def dict_to_list_def
      header_def csv_field_def py_str_def keys_def)


lemma length5: "length l = 5 \<Longrightarrow> \<exists>a b c d e. l = [a, b, c, d, e]"
  by (simp add: numeral_eq_Suc length_Suc_conv) blast

lemma read_row_canonical:
  assumes "length l = 5"
  shows "read_row header l = Row (zip header (map PStr l)) None"
    and "line_of repr (read_row header l) = l"
    and "writable_row (read_row header l)"
    and "complete_row (read_row header l)"
proof -
  from assms obtain a b c d e where l: "l = [a, b, c, d, e]"
    using length5 by blast
  show r: "read_row header l = Row (zip header (map PStr l)) None"
    unfolding l by (simp add: read_row_def header_def dict_of_pairs_def)
  show "line_of repr (read_row header l) = l"
    unfolding r unfolding l by (simp add: line_of_def header_def csv_field_def)
  show "writable_row (read_row header l)"
    unfolding r unfolding l by (simp add: writable_row_def header_def)
  show "complete_row (read_row header l)"
    unfolding r unfolding l by (simp add: complete_row_def header_def)
qed

lemma csv_init_ok:
  "within_field_limit f \<Longrightarrow> csv_init f = Inr \<lparr>data = DictReader f, disk = f\<rparr>"
  by (auto simp: csv_init_def within_field_limit_def not_less)

lemma csv_init_raises: "\<not> within_field_limit f \<Longrightarrow> csv_init f = Inl CsvError"
  by (auto simp: csv_init_def within_field_limit_def not_le)

lemma csv_init_returns:
  "csv_init f = Inr st \<Longrightarrow> st = \<lparr>data = DictReader f, disk = f\<rparr> \<and> within_field_limit f"
  using csv_init_ok [of f] csv_init_raises [of f] by (cases "within_field_limit f") auto

lemma DictReader_canonical:
  assumes "\<forall>l \<in> set lines. length l = 5"
  shows "header # map (line_of repr) (DictReader (header # lines)) = header # lines"
    and "\<forall>r \<in> set (DictReader (header # lines)). writable_row r \<and> complete_row r"
proof -
  from assms have ne: "filter (\<lambda>row. row \<noteq> []) lines = lines"
    by (auto simp: filter_id_conv)
  then have d: "DictReader (header # lines) = map (read_row header) lines"
    by (simp add: DictReader_def)
  have "map (line_of repr) (map (read_row header) lines) = lines"
    using assms by (simp add: map_idI read_row_canonical(2))
  then show "header # map (line_of repr) (DictReader (header # lines)) = header # lines"
    unfolding d by simp
  show "\<forall>r \<in> set (DictReader (header # lines)). writable_row r \<and> complete_row r"
    unfolding d using assms read_row_canonical(3,4) by auto
qed

lemma within_limit_header: "within_field_limit [header]"
  by (simp add: within_field_limit_def header_def field_size_limit_def)

lemma complete_row_title: "complete_row r \<Longrightarrow> ''title'' \<in> set (keys (entries r))"
  by (simp add: complete_row_def)

lemma csv_update_unknown_title:
  assumes "\<forall>r \<in> set (data st). ''title'' \<in> set (keys (entries r)) \<and> writable_row r"
    and "\<forall>r \<in> set (data st). \<not> has_title t r"
  shows "csv_update_movie repr t n st =
           (Inr (t @ '' does not exist''), st\<lparr>disk := header # map (line_of repr) (data st)\<rparr>)"
proof -
  from assms have "update_loop t n (data st) = (data st, None)"
    by (intro update_loop_absent) simp
  moreover from assms(2)
  have "\<not> (\<exists>movie \<in> set (data st). map_of (entries movie) ''title'' = Some (PStr t))"
    by (simp add: has_title_def)
  moreover from assms(1)
  have "persist repr m (st\<lparr>data := data st\<rparr>)
          = (Inr m, st\<lparr>data := data st, disk := header # map (line_of repr) (data st)\<rparr>)" for m
    using persist_writable [of "st\<lparr>data := data st\<rparr>" repr m] by simp
  ultimately show ?thesis
    by (simp add: csv_update_movie_def)
qed


lemma added_message_differs: "t @ '' added to the database'' \<noteq> ''Movie already exists''"
proof
  assume "t @ '' added to the database'' = ''Movie already exists''"
  then have "length (t @ '' added to the database'') = length ''Movie already exists''"
    by (rule arg_cong)
  then show False by simp
qed

lemma csv_add_returns:
  assumes "csv_add_movie repr t y r p cs = (Inr (t @ '' added to the database''), cs')"
  shows "\<exists>l. csv_list_movies cs = Inr l \<and> \<not> contains l t
           \<and> (\<forall>row \<in> set (data cs). writable_row row)
           \<and> cs' = cs\<lparr>data := data cs @ [Row [(''title'', PStr t), (''year'', y),
                                              (''rating'', r), (''poster'', p)] None],
                      disk := header # map (line_of repr)
                        (data cs @ [Row [(''title'', PStr t), (''year'', y),
                                         (''rating'', r), (''poster'', p)] None])\<rparr>"
proof -
  let ?movie = "Row [(''title'', PStr t), (''year'', y), (''rating'', r), (''poster'', p)] None"
  from assms obtain l where l: "csv_list_movies cs = Inr l"
    by (cases "csv_list_movies cs") (auto simp: csv_add_movie_def)
  from assms l have c: "\<not> contains l t"
    using added_message_differs [of t] by (auto simp: csv_add_movie_def split: if_splits)
  from assms l c have "persist repr (t @ '' added to the database'') (cs\<lparr>data := data cs @ [?movie]\<rparr>)
      = (Inr (t @ '' added to the database''), cs')"
    by (simp add: csv_add_movie_def)
  from persist_returns [OF this] l c show ?thesis by auto
qed

lemma contains_has_title:
  assumes "csv_list_movies cs = Inr l" and "data cs \<noteq> []"
  shows "contains l t \<longleftrightarrow> (\<exists>row \<in> set (data cs). has_title t row)"
proof -
  from assms(1) obtain d where d: "list_loop (data cs) [] = Inr d"
    by (cases "list_loop (data cs) []") (auto simp: csv_list_movies_def)
  note r = list_loop_returns [OF d]
  from r assms(2) have "d \<noteq> []" by blast
  with assms(1) d have l: "l = Movies d" by (simp add: csv_list_movies_def)
  from r have "set (keys d) = {v. \<exists>row \<in> set (data cs). map_of (entries row) ''title'' = Some v}"
    by simp
  then show ?thesis
    unfolding l by (simp add: contains_def has_title_def)
qed

lemma csv_add_is_listed:
  assumes "csv_add_movie repr t y r p cs = (Inr (t @ '' added to the database''), cs')"
  shows "\<exists>d. csv_list_movies cs' = Inr (Movies d)
           \<and> map_of d (PStr t) = Some [(''year'', y), (''rating'', r), (''poster'', p)]"
    and "csv_add_movie repr t y2 r2 p2 cs' = (Inr ''Movie already exists'', cs')"
    and "\<forall>row \<in> set (data cs). \<not> has_title t row"
proof -
  let ?movie = "Row [(''title'', PStr t), (''year'', y), (''rating'', r), (''poster'', p)] None"
  let ?info = "[(''year'', y), (''rating'', r), (''poster'', p)]"
  from csv_add_returns [OF assms] obtain l where l: "csv_list_movies cs = Inr l"
    and c: "\<not> contains l t" and cs': "data cs' = data cs @ [?movie]"
    by auto
  from l obtain d0 where d0: "list_loop (data cs) [] = Inr d0"
    by (cases "list_loop (data cs) []") (auto simp: csv_list_movies_def)
  have p: "project ?movie = Some (PStr t, ?info)" by (simp add: project_def)
  have ll: "list_loop (data cs') [] = Inr (AList.update (PStr t) ?info d0)"
    unfolding cs' by (simp add: list_loop_append d0 list_loop_step p del: list_loop.simps(2))
  then have lm: "csv_list_movies cs' = Inr (Movies (AList.update (PStr t) ?info d0))"
    by (simp add: csv_list_movies_def)
  have m: "map_of (AList.update (PStr t) ?info d0) (PStr t) = Some ?info"
    by (simp add: update_conv')
  from lm m show "\<exists>d. csv_list_movies cs' = Inr (Movies d)
           \<and> map_of d (PStr t) = Some [(''year'', y), (''rating'', r), (''poster'', p)]"
    by blast
  have "contains (Movies (AList.update (PStr t) ?info d0)) t"
    by (simp add: contains_def keys_update)
  then show "csv_add_movie repr t y2 r2 p2 cs' = (Inr ''Movie already exists'', cs')"
    by (simp add: csv_add_movie_def lm)
  show "\<forall>row \<in> set (data cs). \<not> has_title t row"
  proof (cases "data cs = []")
    case True
    then show ?thesis by simp
  next
    case False
    from contains_has_title [OF l False, of t] c show ?thesis by simp
  qed
qed

lemma csv_add_succeeds:
  assumes "\<forall>row \<in> set (data cs). complete_row row \<and> writable_row row \<and> \<not> has_title t row"
    and "data cs \<noteq> []"
  shows "\<exists>cs'. csv_add_movie repr t y r p cs = (Inr (t @ '' added to the database''), cs')"
proof -
  let ?movie = "Row [(''title'', PStr t), (''year'', y), (''rating'', r), (''poster'', p)] None"
  from assms(1) obtain d where "list_loop (data cs) [] = Inr d"
    using list_loop_complete [of "data cs" "[]"] by blast
  then obtain l where l: "csv_list_movies cs = Inr l"
    by (cases "d = []") (simp_all add: csv_list_movies_def)
  from contains_has_title [OF l assms(2), of t] assms(1) have c: "\<not> contains l t" by simp
  have "writable_row ?movie" by (simp add: writable_row_def header_def)
  with assms(1) have "\<forall>row \<in> set (data (cs\<lparr>data := data cs @ [?movie]\<rparr>)). writable_row row"
    by simp
  from persist_writable [OF this] l c show ?thesis
    by (simp add: csv_add_movie_def)
qed

lemma csv_init_example:
  "csv_init [header, [''Heat'', ''1995'', ''8.3'', ''url0'', []]]
     = Inr \<lparr>data = [Row [(''title'', PStr ''Heat''), (''year'', PStr ''1995''),
                         (''rating'', PStr ''8.3''), (''poster'', PStr ''url0''),
                         (''notes'', PStr [])] None],
            disk = [header, [''Heat'', ''1995'', ''8.3'', ''url0'', []]]\<rparr>"
  by (simp add: csv_init_def field_size_limit_def DictReader_def read_row_def header_def
      dict_of_pairs_def)

lemma csv_delete_absent:
  assumes "\<forall>row \<in> set (data cs). ''title'' \<in> set (keys (entries row)) \<and> \<not> has_title t row"
  shows "csv_delete_movie repr t cs = (Inr (t @ '' does not exist in the database''), cs)"
  using delete_scan_absent [OF assms] by (simp add: csv_delete_movie_def)


lemma project_has_title:
  "project row = Some (tv, info) \<Longrightarrow>
   ''title'' \<in> set (keys (entries row)) \<and> (has_title t row \<longleftrightarrow> tv = PStr t)"
  using project_title [of row tv info] by (auto simp: has_title_def map_of_keys_Some)

lemma csv_delete_present:
  assumes "map project (data cs) = map Some es" and "distinct (keys es)"
    and "\<forall>row \<in> set (data cs). writable_row row" and "PStr t \<in> set (keys es)"
  shows "csv_list_movies cs = Inr (Movies es)"
    and "fst (csv_delete_movie repr t cs) = Inr (t @ '' has been deleted from the database'')"
    and "\<exists>l'. csv_list_movies (snd (csv_delete_movie repr t cs)) = Inr l'
           \<and> records l' = AList.delete (PStr t) es"
proof -
  from key_decomp [OF assms(4)] obtain exs info eys where
    es: "es = exs @ (PStr t, info) # eys" and n: "PStr t \<notin> set (keys exs)"
    by blast
  from assms(1) es obtain xs row ys where rows: "data cs = xs @ row # ys"
    and pxs: "map project xs = map Some exs" and prow: "project row = Some (PStr t, info)"
    and pys: "map project ys = map Some eys"
    by (auto simp: map_eq_append_conv map_eq_Cons_conv)
  have "data cs \<noteq> []" using rows by simp
  then show "csv_list_movies cs = Inr (Movies es)"
    using assms(1,2) by (rule csv_list_distinct)
  have "\<forall>r \<in> set xs. ''title'' \<in> set (keys (entries r)) \<and> \<not> has_title t r"
  proof
    fix r assume "r \<in> set xs"
    then have "project r \<in> set (map Some exs)" using pxs by (metis imageI set_map)
    then obtain tv i where p: "project r = Some (tv, i)" "(tv, i) \<in> set exs" by auto
    then have "tv \<in> set (keys exs)" by (auto simp: keys_def intro: rev_image_eqI)
    with n have "tv \<noteq> PStr t" by auto
    with project_has_title [OF p(1), of t]
    show "''title'' \<in> set (keys (entries r)) \<and> \<not> has_title t r" by simp
  qed
  moreover have "has_title t row" using project_has_title [OF prow, of t] by simp
  ultimately have scan: "delete_scan t (data cs) = Inr (Some row)"
    and rm: "remove1 row (data cs) = xs @ ys"
    unfolding rows using delete_scan_first [of xs t row ys] by simp_all
  let ?cs1 = "cs\<lparr>data := xs @ ys\<rparr>"
  from assms(3) rows have "\<forall>r \<in> set (data ?cs1). writable_row r" by simp
  from persist_writable [OF this]
  have res: "csv_delete_movie repr t cs =
      (Inr (t @ '' has been deleted from the database''),
       ?cs1\<lparr>disk := header # map (line_of repr) (data ?cs1)\<rparr>)"
    by (simp add: csv_delete_movie_def scan rm)
  then show "fst (csv_delete_movie repr t cs) = Inr (t @ '' has been deleted from the database'')"
    by simp
  from assms(2) es have "distinct (keys ([] @ exs @ eys))" by simp
  moreover from pxs pys have "map project (xs @ ys) = map Some (exs @ eys)" by simp
  ultimately have "list_loop (xs @ ys) [] = Inr ([] @ exs @ eys)"
    by (intro list_loop_distinct)
  then have "\<exists>l'. csv_list_movies (snd (csv_delete_movie repr t cs)) = Inr l'
      \<and> records l' = exs @ eys"
    unfolding res by (simp add: csv_list_movies_def records_def)
  moreover from assms(2) es have "AList.delete (PStr t) es = exs @ eys"
    by (simp add: delete_middle)
  ultimately show "\<exists>l'. csv_list_movies (snd (csv_delete_movie repr t cs)) = Inr l'
           \<and> records l' = AList.delete (PStr t) es"
    by simp
qed

lemma csv_init_two:
  "csv_init [header, [''Heat'', ''1995'', ''8.3'', ''url0'', []],
             [''Up'', ''2009'', ''8.2'', ''url1'', []]]
     = Inr \<lparr>data = [Row [(''title'', PStr ''Heat''), (''year'', PStr ''1995''),
                         (''rating'', PStr ''8.3''), (''poster'', PStr ''url0''),
                         (''notes'', PStr [])] None,
                    Row [(''title'', PStr ''Up''), (''year'', PStr ''2009''),
                         (''rating'', PStr ''8.2''), (''poster'', PStr ''url1''),
                         (''notes'', PStr [])] None],
            disk = [header, [''Heat'', ''1995'', ''8.3'', ''url0'', []],
                    [''Up'', ''2009'', ''8.2'', ''url1'', []]]\<rparr>"
  by (simp add: csv_init_def field_size_limit_def DictReader_def read_row_def header_def
      dict_of_pairs_def)

lemma length_line_of: "length (line_of repr r) = 5"
  by (simp add: line_of_def header_def)

lemma text_rowD:
  assumes "text_row r"
  shows "writable_row r"
    and "\<exists>t y g p. map_of (entries r) ''title'' = Some (PStr t)
           \<and> map_of (entries r) ''year'' = Some (PStr y)
           \<and> map_of (entries r) ''rating'' = Some (PStr g)
           \<and> map_of (entries r) ''poster'' = Some (PStr p)"
proof -
  show "writable_row r" using assms by (simp add: text_row_def)
  have *: "\<exists>s. map_of (entries r) k = Some (PStr s)"
    if "k \<in> set [''title'', ''year'', ''rating'', ''poster'']" for k
  proof -
    from assms that have c: "case map_of (entries r) k of Some v \<Rightarrow> is_text v | None \<Rightarrow> False"
      unfolding text_row_def by blast
    then obtain v where v: "map_of (entries r) k = Some v" "is_text v"
      by (cases "map_of (entries r) k") auto
    then show ?thesis by (cases v) auto
  qed
  from * [of "''title''"] * [of "''year''"] * [of "''rating''"] * [of "''poster''"]
  show "\<exists>t y g p. map_of (entries r) ''title'' = Some (PStr t)
           \<and> map_of (entries r) ''year'' = Some (PStr y)
           \<and> map_of (entries r) ''rating'' = Some (PStr g)
           \<and> map_of (entries r) ''poster'' = Some (PStr p)"
    by auto
qed

lemma project_read_line:
  assumes "text_row r"
  shows "project (read_row header (line_of repr r)) = project r"
proof -
  from text_rowD(2) [OF assms] obtain t y g p where
    m: "map_of (entries r) ''title'' = Some (PStr t)"
       "map_of (entries r) ''year'' = Some (PStr y)"
       "map_of (entries r) ''rating'' = Some (PStr g)"
       "map_of (entries r) ''poster'' = Some (PStr p)"
    by blast
  obtain n where n: "line_of repr r = [t, y, g, p, n]"
    using m by (simp add: line_of_def header_def csv_field_def)
  have "read_row header (line_of repr r) = Row (zip header (map PStr (line_of repr r))) None"
    by (rule read_row_canonical(1)) (rule length_line_of)
  then have "project (read_row header (line_of repr r))
      = Some (PStr t, [(''year'', PStr y), (''rating'', PStr g), (''poster'', PStr p)])"
    unfolding n by (simp add: project_def header_def)
  moreover have "project r
      = Some (PStr t, [(''year'', PStr y), (''rating'', PStr g), (''poster'', PStr p)])"
    using m by (simp add: project_def)
  ultimately show ?thesis by simp
qed


lemma csv_init_header: "csv_init [header] = Inr \<lparr>data = [], disk = [header]\<rparr>"
  using csv_init_ok [OF within_limit_header] by (simp add: DictReader_def)




lemma text_row_complete: "text_row r \<Longrightarrow> complete_row r"
  using text_rowD(2) [of r] by (auto simp: complete_row_def map_of_keys_Some)

lemma just_written_iff:
  "just_written repr cs \<longleftrightarrow>
     (\<forall>r \<in> set (data cs). writable_row r) \<and> disk cs = header # map (line_of repr) (data cs)"
  using write_file_returns [of repr "data cs" "disk cs"] write_file_writable [of "data cs" repr]
  by (auto simp: just_written_def)







lemma delete_scan_member: "delete_scan t rows = Inr (Some movie) \<Longrightarrow> movie \<in> set rows"
  by (induction rows) (auto split: option.splits if_splits)





lemma persist_just_written:
  assumes "persist repr m st = (Inr m', st')"
  shows "just_written repr st'"
proof -
  from persist_returns [OF assms]
  have "\<forall>r \<in> set (data st). writable_row r"
    and "st' = st\<lparr>disk := header # map (line_of repr) (data st)\<rparr>"
    by blast+
  then show ?thesis by (simp add: just_written_iff)
qed

lemma csv_call_written:
  assumes "csv_call repr c cs = (Inr m, cs')"
  shows "cs' = cs \<or> just_written repr cs'"
proof (cases c)
  case (CAdd t y g p)
  let ?movie = "Row [(''title'', PStr t), (''year'', y), (''rating'', g), (''poster'', p)] None"
  from assms CAdd have a: "csv_add_movie repr t y g p cs = (Inr m, cs')" by simp
  then obtain l where l: "csv_list_movies cs = Inr l"
    by (cases "csv_list_movies cs") (auto simp: csv_add_movie_def)
  show ?thesis
  proof (cases "contains l t")
    case True
    with a l show ?thesis by (simp add: csv_add_movie_def)
  next
    case False
    with a l have "persist repr (t @ '' added to the database'')
        (cs\<lparr>data := data cs @ [?movie]\<rparr>) = (Inr m, cs')"
      by (simp add: csv_add_movie_def)
    then show ?thesis using persist_just_written by blast
  qed
next
  case (CDelete t)
  with assms have a: "csv_delete_movie repr t cs = (Inr m, cs')" by simp
  show ?thesis
  proof (cases "delete_scan t (data cs)")
    case (Inl e)
    with a show ?thesis by (simp add: csv_delete_movie_def)
  next
    case (Inr found)
    show ?thesis
    proof (cases found)
      case None
      with Inr a show ?thesis by (simp add: csv_delete_movie_def)
    next
      case (Some movie)
      with Inr a have "persist repr (t @ '' has been deleted from the database'')
          (cs\<lparr>data := remove1 movie (data cs)\<rparr>) = (Inr m, cs')"
        by (simp add: csv_delete_movie_def)
      then show ?thesis using persist_just_written by blast
    qed
  qed
next
  case (CUpdate t n)
  with assms have a: "csv_update_movie repr t n cs = (Inr m, cs')" by simp
  from csv_update_returns [OF a] obtain rows' where
    u: "update_loop t n (data cs) = (rows', None)"
    and cs': "cs' = cs\<lparr>data := rows', disk := header # map (line_of repr) rows'\<rparr>"
    by blast
  obtain msg where "persist repr msg (cs\<lparr>data := rows'\<rparr>) = (Inr m, cs')"
    using a u by (simp add: csv_update_movie_def)
  then show ?thesis using persist_just_written by blast
qed





subsection \<open>Adding to the empty store\<close>

text \<open>
  Claim C10. With an empty working set \<^verbatim>\<open>list_movies\<close> returns the string
  \<^verbatim>\<open>Empty Database...\<close>, and the duplicate check of \<^verbatim>\<open>add_movie\<close> is a substring test on
  that string. A title that occurs in it as a contiguous block (\<^verbatim>\<open>Data\<close>, for one) is
  answered with \<^verbatim>\<open>Movie already exists\<close> and the store stays as it is; every other title
  is inserted and the file written.
\<close>

theorem csv_add_on_empty_store:
  assumes "data st = []"
  shows "csv_list_movies st = Inr (Sentinel ''Empty Database...'')
       \<and> (str_contains ''Empty Database...'' t \<longleftrightarrow> sublist t ''Empty Database...'')
       \<and> (str_contains ''Empty Database...'' t \<longrightarrow>
            csv_add_movie repr t y r p st = (Inr ''Movie already exists'', st))
       \<and> (\<not> str_contains ''Empty Database...'' t \<longrightarrow>
            csv_add_movie repr t y r p st =
              (Inr (t @ '' added to the database''),
               st\<lparr>data := [Row [(''title'', PStr t), (''year'', y), (''rating'', r), (''poster'', p)] None],
                  disk := [header, [t, csv_field repr y, csv_field repr r, csv_field repr p, []]]\<rparr>))"
proof -
  have l: "csv_list_movies st = Inr (Sentinel ''Empty Database...'')"
    using assms by (rule csv_list_empty)
  let ?movie = "Row [(''title'', PStr t), (''year'', y), (''rating'', r), (''poster'', p)] None"
  have w: "writable_row ?movie"
    by (simp add: writable_row_def header_def)
  have ln: "line_of repr ?movie = [t, csv_field repr y, csv_field repr r, csv_field repr p, []]"
    by (simp add: line_of_def header_def csv_field_def)
  have "persist repr m (st\<lparr>data := [?movie]\<rparr>)
          = (Inr m, st\<lparr>data := [?movie], disk := [header, line_of repr ?movie]\<rparr>)" for m
    using w persist_writable [of "st\<lparr>data := [?movie]\<rparr>" repr m] by simp
  then have "\<not> str_contains ''Empty Database...'' t \<longrightarrow>
            csv_add_movie repr t y r p st =
              (Inr (t @ '' added to the database''),
               st\<lparr>data := [?movie], disk := [header, line_of repr ?movie]\<rparr>)"
    using assms by (simp add: csv_add_movie_def l contains_def)
  moreover have "str_contains ''Empty Database...'' t \<longrightarrow>
            csv_add_movie repr t y r p st = (Inr ''Movie already exists'', st)"
    by (simp add: csv_add_movie_def l contains_def)
  ultimately show ?thesis
    using l ln str_contains_sublist [of "''Empty Database...''" t]
    by (simp del: str_contains.simps)
qed


text \<open>On the store read from a file with the header line only: \<^verbatim>\<open>Data\<close> is refused, \<^verbatim>\<open>Up\<close> is added.\<close>

theorem csv_add_on_empty_store_witness:
  "csv_init [header] = Inr \<lparr>data = [], disk = [header]\<rparr>
   \<and> csv_add_movie (\<lambda>q. ''8.2'') ''Data'' (PStr ''2009'') (PFloat (41 / 5)) (PStr ''url1'')
        \<lparr>data = [], disk = [header]\<rparr>
      = (Inr ''Movie already exists'', \<lparr>data = [], disk = [header]\<rparr>)
   \<and> csv_add_movie (\<lambda>q. ''8.2'') ''Up'' (PStr ''2009'') (PFloat (41 / 5)) (PStr ''url1'')
        \<lparr>data = [], disk = [header]\<rparr>
      = (Inr ''Up added to the database'',
         \<lparr>data = [Row [(''title'', PStr ''Up''), (''year'', PStr ''2009''),
                        (''rating'', PFloat (41 / 5)), (''poster'', PStr ''url1'')] None],
          disk = [header, [''Up'', ''2009'', ''8.2'', ''url1'', []]]\<rparr>)"
proof -
  have e: "data \<lparr>data = [], disk = [header]\<rparr> = []"
    by simp
  have 1: "str_contains ''Empty Database...'' ''Data''" by simp
  have 2: "\<not> str_contains ''Empty Database...'' ''Up''" by simp
  have 3: "csv_field (\<lambda>q. ''8.2'') (PFloat (41 / 5)) = ''8.2''"
    "csv_field (\<lambda>q. ''8.2'') (PStr ''2009'') = ''2009''"
    "csv_field (\<lambda>q. ''8.2'') (PStr ''url1'') = ''url1''"
    by (simp_all add: csv_field_def py_str_def)
  from csv_add_on_empty_store [OF e, of "''Data''" "\<lambda>q. ''8.2''" "PStr ''2009''" "PFloat (41 / 5)" "PStr ''url1''"] 1
  have a: "csv_add_movie (\<lambda>q. ''8.2'') ''Data'' (PStr ''2009'') (PFloat (41 / 5)) (PStr ''url1'')
        \<lparr>data = [], disk = [header]\<rparr> = (Inr ''Movie already exists'', \<lparr>data = [], disk = [header]\<rparr>)"
    by blast
  from csv_add_on_empty_store [OF e, of "''Up''" "\<lambda>q. ''8.2''" "PStr ''2009''" "PFloat (41 / 5)" "PStr ''url1''"] 2
  have b: "csv_add_movie (\<lambda>q. ''8.2'') ''Up'' (PStr ''2009'') (PFloat (41 / 5)) (PStr ''url1'')
        \<lparr>data = [], disk = [header]\<rparr>
      = (Inr (''Up'' @ '' added to the database''),
         \<lparr>data = [], disk = [header]\<rparr>\<lparr>data := [Row [(''title'', PStr ''Up''), (''year'', PStr ''2009''),
                        (''rating'', PFloat (41 / 5)), (''poster'', PStr ''url1'')] None],
          disk := [header, [''Up'', csv_field (\<lambda>q. ''8.2'') (PStr ''2009''),
                   csv_field (\<lambda>q. ''8.2'') (PFloat (41 / 5)),
                   csv_field (\<lambda>q. ''8.2'') (PStr ''url1''), []]]\<rparr>)"
    by blast
  show ?thesis
    unfolding a b 3 by (simp add: csv_init_header)
qed

subsection \<open>What the listing shows\<close>

text \<open>
  Claim C6. In the delimited-text store \<^verbatim>\<open>list()\<close> returns the string
  \<^verbatim>\<open>Empty Database...\<close> for the empty working set. For a working set that is not empty
  and whose rows have the four keys it reads, it returns a dictionary that is not
  empty, whose keys are the title values of the rows and whose values have exactly the
  keys \<^verbatim>\<open>year\<close>, \<^verbatim>\<open>rating\<close> and \<^verbatim>\<open>poster\<close>, in this order; when the titles are pairwise
  different, it is the list of the projections of the rows. An \<^verbatim>\<open>update\<close> that returns
  sets \<^verbatim>\<open>notes\<close> on every row with the title and leaves the listing as it was: the
  notes never show.
\<close>

theorem csv_list_projection:
  "(data st = [] \<longrightarrow> csv_list_movies st = Inr (Sentinel ''Empty Database...''))
   \<and> (data st \<noteq> [] \<and> (\<forall>r \<in> set (data st). complete_row r) \<longrightarrow>
        (\<exists>d. csv_list_movies st = Inr (Movies d) \<and> d \<noteq> []
            \<and> set (keys d) = {v. \<exists>r \<in> set (data st). map_of (entries r) ''title'' = Some v}
            \<and> (\<forall>(title, info) \<in> set d. keys info = [''year'', ''rating'', ''poster''])))
   \<and> (\<forall>es. data st \<noteq> [] \<and> map project (data st) = map Some es \<and> distinct (keys es) \<longrightarrow>
        csv_list_movies st = Inr (Movies es))
   \<and> (csv_update_movie repr t n st = (Inr m, st') \<longrightarrow>
        csv_list_movies st' = csv_list_movies st
        \<and> (\<forall>r' \<in> set (data st'). has_title t r' \<longrightarrow> map_of (entries r') ''notes'' = Some (PStr n)))"
proof -
  have 1: "data st = [] \<longrightarrow> csv_list_movies st = Inr (Sentinel ''Empty Database...'')"
    by (simp add: csv_list_empty)
  have 2: "data st \<noteq> [] \<and> (\<forall>r \<in> set (data st). complete_row r) \<longrightarrow>
        (\<exists>d. csv_list_movies st = Inr (Movies d) \<and> d \<noteq> []
            \<and> set (keys d) = {v. \<exists>r \<in> set (data st). map_of (entries r) ''title'' = Some v}
            \<and> (\<forall>(title, info) \<in> set d. keys info = [''year'', ''rating'', ''poster'']))"
    using csv_list_nonempty [of st] by blast
  have 3: "\<forall>es. data st \<noteq> [] \<and> map project (data st) = map Some es \<and> distinct (keys es) \<longrightarrow>
        csv_list_movies st = Inr (Movies es)"
    using csv_list_distinct [of st] by blast
  have 4: "csv_update_movie repr t n st = (Inr m, st') \<longrightarrow>
        csv_list_movies st' = csv_list_movies st
        \<and> (\<forall>r' \<in> set (data st'). has_title t r' \<longrightarrow> map_of (entries r') ''notes'' = Some (PStr n))"
    using csv_update_keeps_listing [of repr t n st m st'] by blast
  from 1 2 3 4 show ?thesis by blast
qed


text \<open>
  The scenario of the specification: the header-only file gives the sentinel; a store
  with the one movie \<^verbatim>\<open>Up\<close> lists year, rating and poster, also after \<^verbatim>\<open>update\<close> has
  put a note on the row.
\<close>

theorem csv_list_projection_witness:
  "csv_init [header] = Inr \<lparr>data = [], disk = [header]\<rparr>
   \<and> csv_list_movies \<lparr>data = [], disk = [header]\<rparr> = Inr (Sentinel ''Empty Database...'')
   \<and> complete_row (Row [(''title'', PStr ''Up''), (''year'', PStr ''2009''),
                        (''rating'', PFloat (41 / 5)), (''poster'', PStr ''url1'')] None)
   \<and> csv_list_movies
        \<lparr>data = [Row [(''title'', PStr ''Up''), (''year'', PStr ''2009''),
                      (''rating'', PFloat (41 / 5)), (''poster'', PStr ''url1'')] None],
         disk = [header, [''Up'', ''2009'', ''8.2'', ''url1'', []]]\<rparr>
       = Inr (Movies [(PStr ''Up'', [(''year'', PStr ''2009''), (''rating'', PFloat (41 / 5)),
                                    (''poster'', PStr ''url1'')])])
   \<and> csv_list_movies
        (snd (csv_update_movie (\<lambda>q. ''8.2'') ''Up'' ''nice''
           \<lparr>data = [Row [(''title'', PStr ''Up''), (''year'', PStr ''2009''),
                         (''rating'', PFloat (41 / 5)), (''poster'', PStr ''url1'')] None],
            disk = [header, [''Up'', ''2009'', ''8.2'', ''url1'', []]]\<rparr>))
       = Inr (Movies [(PStr ''Up'', [(''year'', PStr ''2009''), (''rating'', PFloat (41 / 5)),
                                    (''poster'', PStr ''url1'')])])
   \<and> map (\<lambda>r. map_of (entries r) ''notes'')
        (data (snd (csv_update_movie (\<lambda>q. ''8.2'') ''Up'' ''nice''
           \<lparr>data = [Row [(''title'', PStr ''Up''), (''year'', PStr ''2009''),
                         (''rating'', PFloat (41 / 5)), (''poster'', PStr ''url1'')] None],
            disk = [header, [''Up'', ''2009'', ''8.2'', ''url1'', []]]\<rparr>)))
       = [Some (PStr ''nice'')]"
proof -
  let ?r = "Row [(''title'', PStr ''Up''), (''year'', PStr ''2009''),
                 (''rating'', PFloat (41 / 5)), (''poster'', PStr ''url1'')] None"
  let ?st = "\<lparr>data = [?r], disk = [header, [''Up'', ''2009'', ''8.2'', ''url1'', []]]\<rparr>"
  let ?e = "(PStr ''Up'', [(''year'', PStr ''2009''), (''rating'', PFloat (41 / 5)),
                           (''poster'', PStr ''url1'')])"
  let ?st' = "\<lparr>data = [Row [(''title'', PStr ''Up''), (''year'', PStr ''2009''),
                    (''rating'', PFloat (41 / 5)), (''poster'', PStr ''url1''),
                    (''notes'', PStr ''nice'')] None],
       disk = [header, [''Up'', ''2009'', ''8.2'', ''url1'', ''nice'']]\<rparr>"
  have e: "data \<lparr>data = [], disk = [header]\<rparr> = []"
    by simp
  have u: "csv_update_movie (\<lambda>q. ''8.2'') ''Up'' ''nice'' ?st = (Inr ''Up has been updated'', ?st')"
    by (simp add: csv_update_example)
  have h: "data ?st \<noteq> [] \<and> map project (data ?st) = map Some [?e] \<and> distinct (keys [?e])"
    by (simp add: project_def)
  note t1 = csv_list_projection [of "\<lparr>data = [], disk = [header]\<rparr>"]
  note t2 = csv_list_projection [of ?st "\<lambda>q. ''8.2''" "''Up''" "''nice''" "''Up has been updated''" ?st']
  from t1 e have a: "csv_list_movies \<lparr>data = [], disk = [header]\<rparr> = Inr (Sentinel ''Empty Database...'')"
    by blast
  from t2 h have b: "csv_list_movies ?st = Inr (Movies [?e])" by blast
  from t2 u have c: "csv_list_movies ?st' = csv_list_movies ?st" by blast
  have d: "complete_row ?r" by (simp add: complete_row_def)
  show ?thesis
    unfolding u snd_conv c using a b d by (simp add: csv_init_header)
qed

subsection \<open>Annotating a title the store does not have\<close>

text \<open>
  Claim C7, as the code has it. In the delimited-text store, let every row have a
  title, be writable and printable, and let no row have the title \<open>t\<close>. Then
  \<^verbatim>\<open>update(t, note)\<close> returns \<open>t\<close> followed by \<^verbatim>\<open>does not exist\<close>; the working set is the
  same, so no \<^verbatim>\<open>notes\<close> field changed and \<^verbatim>\<open>list()\<close> is the same; and the file is written
  again from that working set: it holds the header and one line of five fields for each
  row. As lines of fields (quoting and line ends are the \<^verbatim>\<open>csv\<close> module's), the file is
  the same as before when it held those lines already, which is so
  when the store is the result of a call that wrote and for a store just read from a
  file of five-field lines under the store's header. Any other file is replaced by
  those lines.
\<close>

theorem csv_update_absent:
  assumes "\<forall>r \<in> set (data st). ''title'' \<in> set (keys (entries r)) \<and> writable_row r"
    and "\<forall>r \<in> set (data st). printable_row r"
    and "\<forall>r \<in> set (data st). \<not> has_title t r"
  shows "csv_update_movie repr t n st =
           (Inr (t @ '' does not exist''), st\<lparr>disk := header # map (line_of repr) (data st)\<rparr>)
       \<and> data (snd (csv_update_movie repr t n st)) = data st
       \<and> csv_list_movies (snd (csv_update_movie repr t n st)) = csv_list_movies st
       \<and> just_written repr (snd (csv_update_movie repr t n st))
       \<and> (disk st = header # map (line_of repr) (data st) \<longrightarrow>
            snd (csv_update_movie repr t n st) = st)
       \<and> (\<forall>lines. csv_init (header # lines) = Inr st \<and> (\<forall>l \<in> set lines. length l = 5) \<longrightarrow>
            snd (csv_update_movie repr t n st) = st)
       \<and> (\<forall>c st0 m. csv_call repr c st0 = (Inr m, st) \<and> st \<noteq> st0 \<longrightarrow>
            snd (csv_update_movie repr t n st) = st)"
proof -
  note r = csv_update_unknown_title [OF assms(1,3), of repr n]
  have 1: "data (snd (csv_update_movie repr t n st)) = data st"
    unfolding r by simp
  then have 2: "csv_list_movies (snd (csv_update_movie repr t n st)) = csv_list_movies st"
    by (rule csv_list_movies_data)
  have 3: "disk st = header # map (line_of repr) (data st) \<longrightarrow>
            snd (csv_update_movie repr t n st) = st"
    unfolding r by simp
  have 4: "snd (csv_update_movie repr t n st) = st"
    if h: "csv_init (header # lines) = Inr st" "\<forall>l \<in> set lines. length l = 5" for lines
  proof -
    from csv_init_returns [OF h(1)]
    have "data st = DictReader (header # lines)" "disk st = header # lines" by simp_all
    with DictReader_canonical(1) [OF h(2), of repr]
    have "disk st = header # map (line_of repr) (data st)" by simp
    with 3 show ?thesis by simp
  qed
  have 5: "just_written repr (snd (csv_update_movie repr t n st))"
    unfolding r using assms(1) by (simp add: just_written_iff)
  have 6: "snd (csv_update_movie repr t n st) = st"
    if h: "csv_call repr c st0 = (Inr m, st)" "st \<noteq> st0" for c st0 m
  proof -
    from csv_call_written [OF h(1)] h(2) have "just_written repr st" by simp
    then have "disk st = header # map (line_of repr) (data st)" by (simp add: just_written_iff)
    with 3 show ?thesis by simp
  qed
  from r 1 2 3 4 5 6 show ?thesis by blast
qed

text \<open>On the store read from a file with the one movie \<^verbatim>\<open>Up\<close>, annotating \<^verbatim>\<open>Down\<close>.\<close>

theorem csv_update_absent_witness:
  "csv_init [header, [''Up'', ''2009'', ''8.2'', ''url1'', []]]
     = Inr \<lparr>data = [Row [(''title'', PStr ''Up''), (''year'', PStr ''2009''),
                         (''rating'', PStr ''8.2''), (''poster'', PStr ''url1''),
                         (''notes'', PStr [])] None],
            disk = [header, [''Up'', ''2009'', ''8.2'', ''url1'', []]]\<rparr>
   \<and> csv_update_movie (\<lambda>q. ''8.2'') ''Down'' ''nice''
       \<lparr>data = [Row [(''title'', PStr ''Up''), (''year'', PStr ''2009''),
                     (''rating'', PStr ''8.2''), (''poster'', PStr ''url1''),
                     (''notes'', PStr [])] None],
        disk = [header, [''Up'', ''2009'', ''8.2'', ''url1'', []]]\<rparr>
     = (Inr ''Down does not exist'',
        \<lparr>data = [Row [(''title'', PStr ''Up''), (''year'', PStr ''2009''),
                      (''rating'', PStr ''8.2''), (''poster'', PStr ''url1''),
                      (''notes'', PStr [])] None],
         disk = [header, [''Up'', ''2009'', ''8.2'', ''url1'', []]]\<rparr>)
   \<and> csv_list_movies
       \<lparr>data = [Row [(''title'', PStr ''Up''), (''year'', PStr ''2009''),
                     (''rating'', PStr ''8.2''), (''poster'', PStr ''url1''),
                     (''notes'', PStr [])] None],
        disk = [header, [''Up'', ''2009'', ''8.2'', ''url1'', []]]\<rparr>
     = Inr (Movies [(PStr ''Up'', [(''year'', PStr ''2009''), (''rating'', PStr ''8.2''),
                                  (''poster'', PStr ''url1'')])])"
proof -
  let ?st = "\<lparr>data = [Row [(''title'', PStr ''Up''), (''year'', PStr ''2009''),
                     (''rating'', PStr ''8.2''), (''poster'', PStr ''url1''),
                     (''notes'', PStr [])] None],
        disk = [header, [''Up'', ''2009'', ''8.2'', ''url1'', []]]\<rparr>"
  have i: "csv_init [header, [''Up'', ''2009'', ''8.2'', ''url1'', []]] = Inr ?st"
    by (simp add: csv_init_def field_size_limit_def DictReader_def read_row_def header_def
        dict_of_pairs_def)
  have h1: "\<forall>r \<in> set (data ?st). ''title'' \<in> set (keys (entries r)) \<and> writable_row r"
    by (simp add: writable_row_def header_def)
  have h2: "\<forall>r \<in> set (data ?st). printable_row r"
    by (simp add: printable_row_def)
  have h3: "\<forall>r \<in> set (data ?st). \<not> has_title ''Down'' r"
    by (simp add: has_title_def)
  have h4: "csv_init (header # [[''Up'', ''2009'', ''8.2'', ''url1'', []]]) = Inr ?st
              \<and> (\<forall>l \<in> set [[''Up'', ''2009'', ''8.2'', ''url1'', []]]. length l = 5)"
    using i by simp
  note t = csv_update_absent [OF h1 h2 h3, of "\<lambda>q. ''8.2''" "''nice''"]
  from t h4 have "snd (csv_update_movie (\<lambda>q. ''8.2'') ''Down'' ''nice'' ?st) = ?st" by blast
  moreover from t have "fst (csv_update_movie (\<lambda>q. ''8.2'') ''Down'' ''nice'' ?st)
      = Inr (''Down'' @ '' does not exist'')" by simp
  ultimately have 1: "csv_update_movie (\<lambda>q. ''8.2'') ''Down'' ''nice'' ?st
      = (Inr ''Down does not exist'', ?st)"
    by (simp add: prod_eq_iff)
  have 2: "csv_list_movies ?st
     = Inr (Movies [(PStr ''Up'', [(''year'', PStr ''2009''), (''rating'', PStr ''8.2''),
                                  (''poster'', PStr ''url1'')])])"
    by (simp add: csv_list_movies_def)
  from i 1 2 show ?thesis by simp
qed

text \<open>
  The claim says that the persisted contents equal the prior contents. A file whose
  line has two fields is read with \<^verbatim>\<open>None\<close> for the three missing ones. Annotating the
  absent title \<^verbatim>\<open>Down\<close> returns the not-found message and leaves the working set and the
  listing as they were, but the file now holds a line of five fields, and a fresh
  instance on it lists the empty string where the prior instance lists \<^verbatim>\<open>None\<close>.
\<close>

theorem csv_update_absent_counterexample:
  "csv_init [header, [''Up'', ''2009'']]
     = Inr \<lparr>data = [Row [(''title'', PStr ''Up''), (''year'', PStr ''2009''),
                         (''rating'', PNone), (''poster'', PNone), (''notes'', PNone)] None],
            disk = [header, [''Up'', ''2009'']]\<rparr>
   \<and> csv_update_movie (\<lambda>q. ''8.2'') ''Down'' ''nice''
       \<lparr>data = [Row [(''title'', PStr ''Up''), (''year'', PStr ''2009''),
                     (''rating'', PNone), (''poster'', PNone), (''notes'', PNone)] None],
        disk = [header, [''Up'', ''2009'']]\<rparr>
     = (Inr ''Down does not exist'',
        \<lparr>data = [Row [(''title'', PStr ''Up''), (''year'', PStr ''2009''),
                      (''rating'', PNone), (''poster'', PNone), (''notes'', PNone)] None],
         disk = [header, [''Up'', ''2009'', [], [], []]]\<rparr>)
   \<and> [header, [''Up'', ''2009'', [], [], []]] \<noteq> [header, [''Up'', ''2009'']]
   \<and> csv_list_movies
       \<lparr>data = [Row [(''title'', PStr ''Up''), (''year'', PStr ''2009''),
                     (''rating'', PNone), (''poster'', PNone), (''notes'', PNone)] None],
        disk = [header, [''Up'', ''2009'']]\<rparr>
     = Inr (Movies [(PStr ''Up'', [(''year'', PStr ''2009''), (''rating'', PNone),
                                  (''poster'', PNone)])])
   \<and> csv_init [header, [''Up'', ''2009'', [], [], []]]
     = Inr \<lparr>data = [Row [(''title'', PStr ''Up''), (''year'', PStr ''2009''),
                         (''rating'', PStr []), (''poster'', PStr []), (''notes'', PStr [])] None],
            disk = [header, [''Up'', ''2009'', [], [], []]]\<rparr>
   \<and> csv_list_movies
       \<lparr>data = [Row [(''title'', PStr ''Up''), (''year'', PStr ''2009''),
                     (''rating'', PStr []), (''poster'', PStr []), (''notes'', PStr [])] None],
        disk = [header, [''Up'', ''2009'', [], [], []]]\<rparr>
     = Inr (Movies [(PStr ''Up'', [(''year'', PStr ''2009''), (''rating'', PStr []),
                                  (''poster'', PStr [])])])"
proof -
  let ?st = "\<lparr>data = [Row [(''title'', PStr ''Up''), (''year'', PStr ''2009''),
                     (''rating'', PNone), (''poster'', PNone), (''notes'', PNone)] None],
        disk = [header, [''Up'', ''2009'']]\<rparr>"
  have 1: "csv_init [header, [''Up'', ''2009'']] = Inr ?st"
    by (simp add: csv_init_def field_size_limit_def DictReader_def read_row_def header_def
        dict_of_pairs_def)
  have h1: "\<forall>r \<in> set (data ?st). ''title'' \<in> set (keys (entries r)) \<and> writable_row r"
    by (simp add: writable_row_def header_def)
  have h2: "\<forall>r \<in> set (data ?st). \<not> has_title ''Down'' r"
    by (simp add: has_title_def)
  have 2: "csv_update_movie (\<lambda>q. ''8.2'') ''Down'' ''nice'' ?st
     = (Inr ''Down does not exist'',
        \<lparr>data = [Row [(''title'', PStr ''Up''), (''year'', PStr ''2009''),
                      (''rating'', PNone), (''poster'', PNone), (''notes'', PNone)] None],
         disk = [header, [''Up'', ''2009'', [], [], []]]\<rparr>)"
    using csv_update_unknown_title [OF h1 h2, of "\<lambda>q. ''8.2''" "''nice''"]
    by (simp add: line_of_def header_def csv_field_def)
  have 3: "[header, [''Up'', ''2009'', [], [], []]] \<noteq> [header, [''Up'', ''2009'']]"
    by simp
  have 4: "csv_list_movies ?st
     = Inr (Movies [(PStr ''Up'', [(''year'', PStr ''2009''), (''rating'', PNone),
                                  (''poster'', PNone)])])"
    by (simp add: csv_list_movies_def)
  have 5: "csv_init [header, [''Up'', ''2009'', [], [], []]]
     = Inr \<lparr>data = [Row [(''title'', PStr ''Up''), (''year'', PStr ''2009''),
                         (''rating'', PStr []), (''poster'', PStr []), (''notes'', PStr [])] None],
            disk = [header, [''Up'', ''2009'', [], [], []]]\<rparr>"
    by (simp add: csv_init_def field_size_limit_def DictReader_def read_row_def header_def
        dict_of_pairs_def)
  have 6: "csv_list_movies
       \<lparr>data = [Row [(''title'', PStr ''Up''), (''year'', PStr ''2009''),
                     (''rating'', PStr []), (''poster'', PStr []), (''notes'', PStr [])] None],
        disk = [header, [''Up'', ''2009'', [], [], []]]\<rparr>
     = Inr (Movies [(PStr ''Up'', [(''year'', PStr ''2009''), (''rating'', PStr []),
                                  (''poster'', PStr [])])])"
    by (simp add: csv_list_movies_def)
  from 1 2 3 4 5 6 show ?thesis by blast
qed

section \<open>Properties of both stores\<close>

subsection \<open>Adding a movie\<close>

text \<open>
  Claim C1. In both stores, when the title \<open>t\<close> is not present and \<^verbatim>\<open>add(t, y, r, p)\<close>
  succeeds, \<^verbatim>\<open>list()\<close> has the key \<open>t\<close> with the year, rating and poster that were
  passed (the structured-document store keeps the poster under \<^verbatim>\<open>image-url\<close>), and a second
  \<^verbatim>\<open>add\<close> with the same title, whatever its other arguments, returns
  \<^verbatim>\<open>Movie already exists\<close> and leaves the store as it is. In the structured-document
  store the first \<^verbatim>\<open>add\<close> always succeeds on an absent title; in the delimited-text store
  it does on a working set that is not empty and whose rows are complete and writable.
\<close>

theorem add_then_listed:
  "(t \<notin> set (keys (jdata js)) \<longrightarrow>
      (\<exists>js'. json_add_movie t y r p js = (t @ '' has been added to the database'', js')
         \<and> map_of (json_list_movies js') t
             = Some [(''year'', y), (''rating'', r), (''image-url'', p)]
         \<and> json_add_movie t y2 r2 p2 js' = (''Movie already exists'', js')))
   \<and> ((\<forall>row \<in> set (data cs). \<not> has_title t row)
        \<and> csv_add_movie repr t y r p cs = (Inr (t @ '' added to the database''), cs') \<longrightarrow>
      (\<exists>d. csv_list_movies cs' = Inr (Movies d)
         \<and> map_of d (PStr t) = Some [(''year'', y), (''rating'', r), (''poster'', p)])
      \<and> csv_add_movie repr t y2 r2 p2 cs' = (Inr ''Movie already exists'', cs'))
   \<and> ((\<forall>row \<in> set (data cs). complete_row row \<and> writable_row row \<and> \<not> has_title t row)
        \<and> data cs \<noteq> [] \<longrightarrow>
      (\<exists>cs''. csv_add_movie repr t y r p cs = (Inr (t @ '' added to the database''), cs'')))"
proof -
  have 1: "t \<notin> set (keys (jdata js)) \<longrightarrow>
      (\<exists>js'. json_add_movie t y r p js = (t @ '' has been added to the database'', js')
         \<and> map_of (json_list_movies js') t
             = Some [(''year'', y), (''rating'', r), (''image-url'', p)]
         \<and> json_add_movie t y2 r2 p2 js' = (''Movie already exists'', js'))"
    using json_add_is_listed [of t js y r p y2 r2 p2] by blast
  have 2: "(\<forall>row \<in> set (data cs). \<not> has_title t row)
        \<and> csv_add_movie repr t y r p cs = (Inr (t @ '' added to the database''), cs') \<longrightarrow>
      (\<exists>d. csv_list_movies cs' = Inr (Movies d)
         \<and> map_of d (PStr t) = Some [(''year'', y), (''rating'', r), (''poster'', p)])
      \<and> csv_add_movie repr t y2 r2 p2 cs' = (Inr ''Movie already exists'', cs')"
    using csv_add_is_listed(1,2) [of repr t y r p cs cs'] by blast
  have 3: "(\<forall>row \<in> set (data cs). complete_row row \<and> writable_row row \<and> \<not> has_title t row)
        \<and> data cs \<noteq> [] \<longrightarrow>
      (\<exists>cs''. csv_add_movie repr t y r p cs = (Inr (t @ '' added to the database''), cs''))"
    using csv_add_succeeds [of cs t repr y r p] by blast
  from 1 2 3 show ?thesis by blast
qed


text \<open>
  Adding \<^verbatim>\<open>Up\<close> to the empty document, and to a delimited-text store holding the one
  movie \<^verbatim>\<open>Heat\<close>.
\<close>

theorem add_then_listed_witness:
  "json_add_movie ''Up'' (PInt 2009) (PFloat (41 / 5)) (PStr ''url1'') (json_init [])
     = (''Up has been added to the database'',
        \<lparr>jdata = [(''Up'', [(''year'', PInt 2009), (''rating'', PFloat (41 / 5)),
                            (''image-url'', PStr ''url1'')])],
         jdisk = [(''Up'', [(''year'', PInt 2009), (''rating'', PFloat (41 / 5)),
                            (''image-url'', PStr ''url1'')])]\<rparr>)
   \<and> (\<exists>cs'. csv_add_movie (\<lambda>q. ''8.2'') ''Up'' (PStr ''2009'') (PFloat (41 / 5)) (PStr ''url1'')
               \<lparr>data = [Row [(''title'', PStr ''Heat''), (''year'', PStr ''1995''),
                        (''rating'', PStr ''8.3''), (''poster'', PStr ''url0''),
                        (''notes'', PStr [])] None],
           disk = [header, [''Heat'', ''1995'', ''8.3'', ''url0'', []]]\<rparr>
             = (Inr ''Up added to the database'', cs')
          \<and> (\<exists>d. csv_list_movies cs' = Inr (Movies d)
                \<and> map_of d (PStr ''Up'')
                    = Some [(''year'', PStr ''2009''), (''rating'', PFloat (41 / 5)),
                            (''poster'', PStr ''url1'')])
          \<and> csv_add_movie (\<lambda>q. ''8.2'') ''Up'' (PStr ''1999'') (PFloat 1) (PStr ''url2'') cs'
             = (Inr ''Movie already exists'', cs'))"
proof -
  let ?cs = "\<lparr>data = [Row [(''title'', PStr ''Heat''), (''year'', PStr ''1995''),
                        (''rating'', PStr ''8.3''), (''poster'', PStr ''url0''),
                        (''notes'', PStr [])] None],
           disk = [header, [''Heat'', ''1995'', ''8.3'', ''url0'', []]]\<rparr>"
  have j: "''Up'' \<notin> set (keys (jdata (json_init [])))"
    by (simp add: json_init_empty)
  from add_then_listed [where t = "''Up''" and js = "json_init []" and y = "PInt 2009"
      and r = "PFloat (41 / 5)" and p = "PStr ''url1''"] j
  obtain js' where "json_add_movie ''Up'' (PInt 2009) (PFloat (41 / 5)) (PStr ''url1'') (json_init [])
      = (''Up'' @ '' has been added to the database'', js')"
    by blast
  then have a: "json_add_movie ''Up'' (PInt 2009) (PFloat (41 / 5)) (PStr ''url1'') (json_init [])
     = (''Up has been added to the database'',
        \<lparr>jdata = [(''Up'', [(''year'', PInt 2009), (''rating'', PFloat (41 / 5)),
                            (''image-url'', PStr ''url1'')])],
         jdisk = [(''Up'', [(''year'', PInt 2009), (''rating'', PFloat (41 / 5)),
                            (''image-url'', PStr ''url1'')])]\<rparr>)"
    by (simp add: json_add_fresh json_init_empty json_dump_def)
  have h: "(\<forall>row \<in> set (data ?cs). complete_row row \<and> writable_row row \<and> \<not> has_title ''Up'' row)
             \<and> data ?cs \<noteq> []"
    by (simp add: complete_row_def writable_row_def has_title_def header_def)
  note t = add_then_listed [where cs = ?cs and t = "''Up''" and repr = "\<lambda>q. ''8.2''"
      and y = "PStr ''2009''" and r = "PFloat (41 / 5)" and p = "PStr ''url1''"]
  from t h obtain cs' where
    c: "csv_add_movie (\<lambda>q. ''8.2'') ''Up'' (PStr ''2009'') (PFloat (41 / 5)) (PStr ''url1'') ?cs
          = (Inr (''Up'' @ '' added to the database''), cs')"
    by blast
  from h have "\<forall>row \<in> set (data ?cs). \<not> has_title ''Up'' row" by blast
  with c add_then_listed [where cs = ?cs and t = "''Up''" and cs' = cs'
      and repr = "\<lambda>q. ''8.2''" and y = "PStr ''2009''" and r = "PFloat (41 / 5)"
      and p = "PStr ''url1''" and ?y2.0 = "PStr ''1999''" and ?r2.0 = "PFloat 1"
      and ?p2.0 = "PStr ''url2''"]
  have "(\<exists>d. csv_list_movies cs' = Inr (Movies d)
           \<and> map_of d (PStr ''Up'')
               = Some [(''year'', PStr ''2009''), (''rating'', PFloat (41 / 5)),
                       (''poster'', PStr ''url1'')])
        \<and> csv_add_movie (\<lambda>q. ''8.2'') ''Up'' (PStr ''1999'') (PFloat 1) (PStr ''url2'') cs'
             = (Inr ''Movie already exists'', cs')"
    by blast
  with c a show ?thesis by auto
qed

subsection \<open>Deleting a title the store does not have\<close>

text \<open>
  Claim C2, as the code has it. In the structured-document store, when no stored title
  equals \<open>t\<close> in lower case, \<^verbatim>\<open>delete(t)\<close> returns the not-found message and the store,
  and so \<^verbatim>\<open>list()\<close>, is as before. In the delimited-text store the same holds when no
  row has the title \<open>t\<close> (every row carrying a title, or the scan raises).
\<close>

theorem delete_absent_title:
  "((\<forall>k \<in> set (keys (jdata js)). lower t \<noteq> lower k) \<longrightarrow>
      json_delete_movie t js = (t @ '' does not exist in the database'', js)
      \<and> json_list_movies (snd (json_delete_movie t js)) = json_list_movies js)
   \<and> ((\<forall>row \<in> set (data cs). ''title'' \<in> set (keys (entries row)) \<and> \<not> has_title t row) \<longrightarrow>
      csv_delete_movie repr t cs = (Inr (t @ '' does not exist in the database''), cs)
      \<and> csv_list_movies (snd (csv_delete_movie repr t cs)) = csv_list_movies cs)"
proof -
  have 1: "(\<forall>k \<in> set (keys (jdata js)). lower t \<noteq> lower k) \<longrightarrow>
      json_delete_movie t js = (t @ '' does not exist in the database'', js)
      \<and> json_list_movies (snd (json_delete_movie t js)) = json_list_movies js"
    using json_delete_absent [of js t] by simp
  have 2: "(\<forall>row \<in> set (data cs). ''title'' \<in> set (keys (entries row)) \<and> \<not> has_title t row) \<longrightarrow>
      csv_delete_movie repr t cs = (Inr (t @ '' does not exist in the database''), cs)
      \<and> csv_list_movies (snd (csv_delete_movie repr t cs)) = csv_list_movies cs"
    using csv_delete_absent [of cs t repr] by simp
  from 1 2 show ?thesis by blast
qed


text \<open>Deleting \<^verbatim>\<open>Down\<close> from a document with \<^verbatim>\<open>Up\<close>, and \<^verbatim>\<open>Up\<close> from a store with \<^verbatim>\<open>Heat\<close>.\<close>

theorem delete_absent_title_witness:
  "json_delete_movie ''Down''
     \<lparr>jdata = [(''Up'', [(''year'', PInt 2009)])], jdisk = [(''Up'', [(''year'', PInt 2009)])]\<rparr>
     = (''Down does not exist in the database'',
        \<lparr>jdata = [(''Up'', [(''year'', PInt 2009)])], jdisk = [(''Up'', [(''year'', PInt 2009)])]\<rparr>)
   \<and> csv_delete_movie (\<lambda>q. ''8.2'') ''Up''
       \<lparr>data = [Row [(''title'', PStr ''Heat''), (''year'', PStr ''1995''),
                        (''rating'', PStr ''8.3''), (''poster'', PStr ''url0''),
                        (''notes'', PStr [])] None],
           disk = [header, [''Heat'', ''1995'', ''8.3'', ''url0'', []]]\<rparr>
     = (Inr ''Up does not exist in the database'',
        \<lparr>data = [Row [(''title'', PStr ''Heat''), (''year'', PStr ''1995''),
                        (''rating'', PStr ''8.3''), (''poster'', PStr ''url0''),
                        (''notes'', PStr [])] None],
           disk = [header, [''Heat'', ''1995'', ''8.3'', ''url0'', []]]\<rparr>)"
proof -
  let ?js = "\<lparr>jdata = [(''Up'', [(''year'', PInt 2009)])], jdisk = [(''Up'', [(''year'', PInt 2009)])]\<rparr>"
  let ?cs = "\<lparr>data = [Row [(''title'', PStr ''Heat''), (''year'', PStr ''1995''),
                        (''rating'', PStr ''8.3''), (''poster'', PStr ''url0''),
                        (''notes'', PStr [])] None],
           disk = [header, [''Heat'', ''1995'', ''8.3'', ''url0'', []]]\<rparr>"
  have h1: "\<forall>k \<in> set (keys (jdata ?js)). lower ''Down'' \<noteq> lower k"
    by (simp add: lower_examples)
  have h2: "\<forall>row \<in> set (data ?cs). ''title'' \<in> set (keys (entries row)) \<and> \<not> has_title ''Up'' row"
    by (simp add: has_title_def)
  note t = delete_absent_title [where js = ?js and cs = ?cs and repr = "\<lambda>q. ''8.2''"]
  from t [where t = "''Down''"] h1
  have a: "json_delete_movie ''Down'' ?js = (''Down'' @ '' does not exist in the database'', ?js)"
    by blast
  from t [where t = "''Up''"] h2
  have b: "csv_delete_movie (\<lambda>q. ''8.2'') ''Up'' ?cs
             = (Inr (''Up'' @ '' does not exist in the database''), ?cs)"
    by blast
  from a b show ?thesis by simp
qed


text \<open>
  The claim asks only that \<open>t\<close> is not a key of \<^verbatim>\<open>list()\<close>. After \<^verbatim>\<open>add("Up", ...)\<close> on the
  empty document the title \<^verbatim>\<open>up\<close> is not a key, and yet \<^verbatim>\<open>delete("up")\<close> reports a deletion
  and the listing loses \<^verbatim>\<open>Up\<close>: the scan of this store compares in lower case.
\<close>

theorem delete_absent_title_counterexample:
  "''up'' \<notin> set (keys (json_list_movies
       (snd (json_add_movie ''Up'' (PInt 2009) (PFloat (41 / 5)) (PStr ''url1'') (json_init [])))))
   \<and> json_list_movies
       (snd (json_add_movie ''Up'' (PInt 2009) (PFloat (41 / 5)) (PStr ''url1'') (json_init [])))
     = [(''Up'', [(''year'', PInt 2009), (''rating'', PFloat (41 / 5)),
                  (''image-url'', PStr ''url1'')])]
   \<and> json_delete_movie ''up''
       (snd (json_add_movie ''Up'' (PInt 2009) (PFloat (41 / 5)) (PStr ''url1'') (json_init [])))
     = (''up has been deleted from the database'', \<lparr>jdata = [], jdisk = []\<rparr>)
   \<and> json_list_movies (snd (json_delete_movie ''up''
       (snd (json_add_movie ''Up'' (PInt 2009) (PFloat (41 / 5)) (PStr ''url1'') (json_init [])))))
     = []"
proof -
  let ?v = "[(''year'', PInt 2009), (''rating'', PFloat (41 / 5)), (''image-url'', PStr ''url1'')]"
  let ?st = "\<lparr>jdata = [(''Up'', ?v)], jdisk = json_dump [(''Up'', ?v)]\<rparr>"
  have 1: "snd (json_add_movie ''Up'' (PInt 2009) (PFloat (41 / 5)) (PStr ''url1'') (json_init []))
             = ?st"
    by (simp add: json_init_empty json_add_fresh)
  have "jdata ?st = [] @ (''Up'', ?v) # []" by simp
  moreover have "\<forall>k' \<in> set (keys []). lower ''up'' \<noteq> lower k'" by simp
  moreover have "lower ''up'' = lower ''Up''" by (simp add: lower_examples)
  moreover have "distinct (keys (jdata ?st))" by simp
  ultimately have 2: "json_delete_movie ''up'' ?st
      = (''up'' @ '' has been deleted from the database'',
         \<lparr>jdata = [] @ [], jdisk = json_dump ([] @ [])\<rparr>)"
    by (rule json_delete_first)
  show ?thesis
    unfolding 1 2 by (simp add: json_list_movies_def json_dump_def)
qed

subsection \<open>Deleting a title the store has\<close>

text \<open>
  Claim C3, as the code has it. In the structured-document store \<^verbatim>\<open>delete(t)\<close> removes
  exactly one entry, the first whose title equals \<open>t\<close> in lower case: the listing loses
  that entry, keeps every other entry as it was and is shorter by one. It is the entry
  keyed \<open>t\<close> when \<open>t\<close> is a stored title and no other stored title equals it in lower
  case. In the delimited-text store, for writable rows with pairwise different titles
  that list as \<open>es\<close>, \<^verbatim>\<open>delete(t)\<close> of a listed title removes exactly the entry keyed
  \<open>t\<close> from the entries listed, which are one fewer (when none is left, \<^verbatim>\<open>list()\<close> is the
  sentinel string, which stands for no entry).
\<close>

theorem delete_present_title:
  "(distinct (keys (jdata js)) \<and> jdata js = xs @ (k, v) # ys
      \<and> (\<forall>k' \<in> set (keys xs). lower t \<noteq> lower k') \<and> lower t = lower k \<longrightarrow>
        fst (json_delete_movie t js) = t @ '' has been deleted from the database''
      \<and> json_list_movies (snd (json_delete_movie t js)) = xs @ ys
      \<and> length (json_list_movies (snd (json_delete_movie t js))) + 1
          = length (json_list_movies js))
   \<and> (distinct (keys (jdata js)) \<and> t \<in> set (keys (jdata js))
      \<and> (\<forall>k' \<in> set (keys (jdata js)). lower t = lower k' \<longrightarrow> k' = t) \<longrightarrow>
        json_list_movies (snd (json_delete_movie t js)) = AList.delete t (json_list_movies js)
      \<and> map_of (json_list_movies (snd (json_delete_movie t js)))
          = (map_of (json_list_movies js))(t := None)
      \<and> length (json_list_movies (snd (json_delete_movie t js))) + 1
          = length (json_list_movies js))
   \<and> (map project (data cs) = map Some es \<and> distinct (keys es)
      \<and> (\<forall>row \<in> set (data cs). writable_row row) \<and> PStr t \<in> set (keys es) \<longrightarrow>
        csv_list_movies cs = Inr (Movies es)
      \<and> fst (csv_delete_movie repr t cs) = Inr (t @ '' has been deleted from the database'')
      \<and> (\<exists>l'. csv_list_movies (snd (csv_delete_movie repr t cs)) = Inr l'
            \<and> records l' = AList.delete (PStr t) es
            \<and> map_of (records l') = (map_of es)(PStr t := None)
            \<and> length (records l') + 1 = length es))"
proof (intro conjI impI)
  assume h: "distinct (keys (jdata js)) \<and> jdata js = xs @ (k, v) # ys
      \<and> (\<forall>k' \<in> set (keys xs). lower t \<noteq> lower k') \<and> lower t = lower k"
  from h have a: "jdata js = xs @ (k, v) # ys" by blast
  from h have b: "\<forall>k' \<in> set (keys xs). lower t \<noteq> lower k'" by blast
  from h have c: "lower t = lower k" and d: "distinct (keys (jdata js))" by blast+
  note r = json_delete_first [OF a b c d]
  show "fst (json_delete_movie t js) = t @ '' has been deleted from the database''"
    unfolding r by simp
  show "json_list_movies (snd (json_delete_movie t js)) = xs @ ys"
    unfolding r by (simp add: json_list_movies_def)
  show "length (json_list_movies (snd (json_delete_movie t js))) + 1
          = length (json_list_movies js)"
    unfolding r by (simp add: json_list_movies_def a)
next
  assume h: "distinct (keys (jdata js)) \<and> t \<in> set (keys (jdata js))
      \<and> (\<forall>k' \<in> set (keys (jdata js)). lower t = lower k' \<longrightarrow> k' = t)"
  from h have d: "distinct (keys (jdata js))" and m: "t \<in> set (keys (jdata js))" by blast+
  from h have o: "\<forall>k' \<in> set (keys (jdata js)). lower t = lower k' \<longrightarrow> k' = t" by blast
  note r = json_delete_exact [OF d m o]
  show "json_list_movies (snd (json_delete_movie t js)) = AList.delete t (json_list_movies js)"
    unfolding r by (simp add: json_list_movies_def)
  show "map_of (json_list_movies (snd (json_delete_movie t js)))
          = (map_of (json_list_movies js))(t := None)"
    unfolding r using delete_present(2) [OF d m] by (simp add: json_list_movies_def)
  show "length (json_list_movies (snd (json_delete_movie t js))) + 1
          = length (json_list_movies js)"
    unfolding r using delete_present(1) [OF d m] by (simp add: json_list_movies_def)
next
  assume h: "map project (data cs) = map Some es \<and> distinct (keys es)
      \<and> (\<forall>row \<in> set (data cs). writable_row row) \<and> PStr t \<in> set (keys es)"
  from h have a: "map project (data cs) = map Some es" and b: "distinct (keys es)" by blast+
  from h have c: "\<forall>row \<in> set (data cs). writable_row row" and d: "PStr t \<in> set (keys es)"
    by blast+
  note r = csv_delete_present [OF a b c d]
  show "csv_list_movies cs = Inr (Movies es)" by (rule r(1))
  show "fst (csv_delete_movie repr t cs) = Inr (t @ '' has been deleted from the database'')"
    by (rule r(2))
  from r(3) [of repr] obtain l' where l': "csv_list_movies (snd (csv_delete_movie repr t cs)) = Inr l'"
    "records l' = AList.delete (PStr t) es"
    by blast
  with delete_present [OF b d]
  show "\<exists>l'. csv_list_movies (snd (csv_delete_movie repr t cs)) = Inr l'
            \<and> records l' = AList.delete (PStr t) es
            \<and> map_of (records l') = (map_of es)(PStr t := None)
            \<and> length (records l') + 1 = length es"
    by simp
qed


text \<open>
  A document with \<^verbatim>\<open>Heat\<close> and \<^verbatim>\<open>Up\<close>: deleting \<^verbatim>\<open>up\<close> removes \<^verbatim>\<open>Up\<close>, deleting \<^verbatim>\<open>Heat\<close>
  removes \<^verbatim>\<open>Heat\<close>; and a delimited-text store with the same two movies, from which
  \<^verbatim>\<open>Heat\<close> is deleted.
\<close>

theorem delete_present_title_witness:
  "json_list_movies (snd (json_delete_movie ''up''
      \<lparr>jdata = [(''Heat'', [(''year'', PInt 1995)]), (''Up'', [(''year'', PInt 2009)])],
       jdisk = []\<rparr>))
     = [(''Heat'', [(''year'', PInt 1995)])]
   \<and> json_list_movies (snd (json_delete_movie ''Heat''
      \<lparr>jdata = [(''Heat'', [(''year'', PInt 1995)]), (''Up'', [(''year'', PInt 2009)])],
       jdisk = []\<rparr>))
     = [(''Up'', [(''year'', PInt 2009)])]
   \<and> (\<exists>l'. csv_list_movies (snd (csv_delete_movie (\<lambda>q. ''8.2'') ''Heat''
         \<lparr>data = [Row [(''title'', PStr ''Heat''), (''year'', PStr ''1995''),
                        (''rating'', PStr ''8.3''), (''poster'', PStr ''url0''),
                        (''notes'', PStr [])] None,
                   Row [(''title'', PStr ''Up''), (''year'', PStr ''2009''),
                        (''rating'', PStr ''8.2''), (''poster'', PStr ''url1''),
                        (''notes'', PStr [])] None],
           disk = [header, [''Heat'', ''1995'', ''8.3'', ''url0'', []],
                   [''Up'', ''2009'', ''8.2'', ''url1'', []]]\<rparr>)) = Inr l'
        \<and> records l' = [(PStr ''Up'', [(''year'', PStr ''2009''), (''rating'', PStr ''8.2''),
                                       (''poster'', PStr ''url1'')])])"
proof -
  let ?js = "\<lparr>jdata = [(''Heat'', [(''year'', PInt 1995)]), (''Up'', [(''year'', PInt 2009)])],
              jdisk = []\<rparr>"
  let ?cs = "\<lparr>data = [Row [(''title'', PStr ''Heat''), (''year'', PStr ''1995''),
                        (''rating'', PStr ''8.3''), (''poster'', PStr ''url0''),
                        (''notes'', PStr [])] None,
                   Row [(''title'', PStr ''Up''), (''year'', PStr ''2009''),
                        (''rating'', PStr ''8.2''), (''poster'', PStr ''url1''),
                        (''notes'', PStr [])] None],
           disk = [header, [''Heat'', ''1995'', ''8.3'', ''url0'', []],
                   [''Up'', ''2009'', ''8.2'', ''url1'', []]]\<rparr>"
  let ?heat = "(PStr ''Heat'', [(''year'', PStr ''1995''), (''rating'', PStr ''8.3''),
                               (''poster'', PStr ''url0'')])"
  let ?up = "(PStr ''Up'', [(''year'', PStr ''2009''), (''rating'', PStr ''8.2''),
                           (''poster'', PStr ''url1'')])"
  have lo: "lower ''Heat'' = ''heat''" by code_simp
  have h1: "distinct (keys (jdata ?js))
      \<and> jdata ?js = [(''Heat'', [(''year'', PInt 1995)])] @ (''Up'', [(''year'', PInt 2009)]) # []
      \<and> (\<forall>k' \<in> set (keys [(''Heat'', [(''year'', PInt 1995)])]). lower ''up'' \<noteq> lower k')
      \<and> lower ''up'' = lower ''Up''"
    by (simp add: lower_examples lo)
  have h2: "distinct (keys (jdata ?js)) \<and> ''Heat'' \<in> set (keys (jdata ?js))
      \<and> (\<forall>k' \<in> set (keys (jdata ?js)). lower ''Heat'' = lower k' \<longrightarrow> k' = ''Heat'')"
    by (simp add: lower_examples lo)
  have h3: "map project (data ?cs) = map Some [?heat, ?up] \<and> distinct (keys [?heat, ?up])
      \<and> (\<forall>row \<in> set (data ?cs). writable_row row) \<and> PStr ''Heat'' \<in> set (keys [?heat, ?up])"
    by (simp add: project_def writable_row_def header_def)
  from delete_present_title [where js = ?js and t = "''up''"
      and xs = "[(''Heat'', [(''year'', PInt 1995)])]" and k = "''Up''"
      and v = "[(''year'', PInt 2009)]" and ys = "[]"] h1
  have a: "json_list_movies (snd (json_delete_movie ''up'' ?js))
      = [(''Heat'', [(''year'', PInt 1995)])] @ []"
    by blast
  from delete_present_title [where js = ?js and t = "''Heat''"] h2
  have "json_list_movies (snd (json_delete_movie ''Heat'' ?js))
      = AList.delete ''Heat'' (json_list_movies ?js)"
    by blast
  then have b: "json_list_movies (snd (json_delete_movie ''Heat'' ?js))
      = [(''Up'', [(''year'', PInt 2009)])]"
    by (simp add: json_list_movies_def AList.delete_eq)
  from delete_present_title [where cs = ?cs and t = "''Heat''" and es = "[?heat, ?up]"
      and repr = "\<lambda>q. ''8.2''"] h3
  obtain l' where "csv_list_movies (snd (csv_delete_movie (\<lambda>q. ''8.2'') ''Heat'' ?cs)) = Inr l'"
    "records l' = AList.delete (PStr ''Heat'') [?heat, ?up]"
    by blast
  then have c: "\<exists>l'. csv_list_movies (snd (csv_delete_movie (\<lambda>q. ''8.2'') ''Heat'' ?cs)) = Inr l'
        \<and> records l' = [?up]"
    by (simp add: AList.delete_eq)
  from a b c show ?thesis by simp
qed


text \<open>
  The claim says that the record keyed \<open>t\<close> is removed. After \<^verbatim>\<open>add("up", ...)\<close> and
  \<^verbatim>\<open>add("Up", ...)\<close> on the empty document both titles are stored, and \<^verbatim>\<open>delete("Up")\<close>
  removes \<^verbatim>\<open>up\<close>, the first match of the lower-case scan: the record keyed \<^verbatim>\<open>Up\<close> is
  still listed. In the delimited-text store, deleting the only movie turns \<^verbatim>\<open>list()\<close>
  from a dictionary of one entry into the sentinel string, whose size is not zero.
\<close>

theorem delete_present_title_counterexample:
  "json_list_movies
     (snd (json_add_movie ''Up'' (PInt 2009) (PFloat (41 / 5)) (PStr ''url1'')
        (snd (json_add_movie ''up'' (PInt 1999) (PFloat 7) (PStr ''url0'') (json_init [])))))
     = [(''up'', [(''year'', PInt 1999), (''rating'', PFloat 7), (''image-url'', PStr ''url0'')]),
        (''Up'', [(''year'', PInt 2009), (''rating'', PFloat (41 / 5)),
                  (''image-url'', PStr ''url1'')])]
   \<and> json_list_movies (snd (json_delete_movie ''Up''
       (snd (json_add_movie ''Up'' (PInt 2009) (PFloat (41 / 5)) (PStr ''url1'')
          (snd (json_add_movie ''up'' (PInt 1999) (PFloat 7) (PStr ''url0'') (json_init [])))))))
     = [(''Up'', [(''year'', PInt 2009), (''rating'', PFloat (41 / 5)),
                  (''image-url'', PStr ''url1'')])]
   \<and> csv_list_movies (snd (csv_delete_movie (\<lambda>q. ''8.2'') ''Heat''
       \<lparr>data = [Row [(''title'', PStr ''Heat''), (''year'', PStr ''1995''),
                        (''rating'', PStr ''8.3''), (''poster'', PStr ''url0''),
                        (''notes'', PStr [])] None],
           disk = [header, [''Heat'', ''1995'', ''8.3'', ''url0'', []]]\<rparr>))
     = Inr (Sentinel ''Empty Database...'')"
proof -
  let ?a = "(''up'', [(''year'', PInt 1999), (''rating'', PFloat 7), (''image-url'', PStr ''url0'')])"
  let ?b = "(''Up'', [(''year'', PInt 2009), (''rating'', PFloat (41 / 5)),
                     (''image-url'', PStr ''url1'')])"
  let ?st = "\<lparr>jdata = [?a, ?b], jdisk = json_dump [?a, ?b]\<rparr>"
  have 1: "snd (json_add_movie ''Up'' (PInt 2009) (PFloat (41 / 5)) (PStr ''url1'')
        (snd (json_add_movie ''up'' (PInt 1999) (PFloat 7) (PStr ''url0'') (json_init [])))) = ?st"
    by (simp add: json_init_empty json_add_fresh)
  have "jdata ?st = [] @ ?a # [?b]" by simp
  moreover have "\<forall>k' \<in> set (keys []). lower ''Up'' \<noteq> lower k'" by simp
  moreover have "lower ''Up'' = lower ''up''" by (simp add: lower_examples)
  moreover have "distinct (keys (jdata ?st))" by simp
  ultimately have 2: "json_delete_movie ''Up'' ?st
      = (''Up'' @ '' has been deleted from the database'',
         \<lparr>jdata = [] @ [?b], jdisk = json_dump ([] @ [?b])\<rparr>)"
    by (rule json_delete_first)
  have 3: "csv_list_movies (snd (csv_delete_movie (\<lambda>q. ''8.2'') ''Heat''
       \<lparr>data = [Row [(''title'', PStr ''Heat''), (''year'', PStr ''1995''),
                        (''rating'', PStr ''8.3''), (''poster'', PStr ''url0''),
                        (''notes'', PStr [])] None],
           disk = [header, [''Heat'', ''1995'', ''8.3'', ''url0'', []]]\<rparr>))
     = Inr (Sentinel ''Empty Database...'')"
    by (simp add: csv_delete_movie_def persist_def write_file_def csv_list_movies_def)
  show ?thesis
    unfolding 1 2 using 3 by (simp add: json_list_movies_def)
qed

subsection \<open>Reading back what was written\<close>






end
